theory Spec2Isabelle
  imports Main "HOL-Library.Word" "HOL-Library.Sublist"
begin

unbundle bit_operations_syntax

section \<open>The input-method handler of gamescope (src/ime.cpp)\<close>

text \<open>
  The handler turns text and editing actions committed by an input-method client into
  emulated keyboard events. The embedding follows \<^verbatim>\<open>src/ime.cpp\<close> function by
  function. Machine integers are words of the width the C code declares
  (\<^verbatim>\<open>uint8_t\<close>, \<^verbatim>\<open>uint32_t\<close>). What C leaves undefined or aborts on is a value
  of the type \<open>fault\<close>: a read outside the string's allocation, a null user-data pointer
  that is dereferenced, a failed \<^verbatim>\<open>assert\<close>.
\<close>

type_synonym u8 = "8 word"
type_synonym u32 = "32 word"

datatype fault = OutOfBounds | NullDeref | AssertFailed

subsection \<open>C strings\<close>

text \<open>
  A C string is the list of the bytes of its allocation, the terminator included:
  \<^verbatim>\<open>strdup\<close> allocates \<^verbatim>\<open>strlen + 1\<close> bytes. A pointer into the string is an
  index. Reading at an index at or beyond the length of the list is a read past the
  terminator.
\<close>

definition rd :: "u8 list \<Rightarrow> nat \<Rightarrow> fault + u8" where
  "rd buf i = (if i < length buf then Inr (buf ! i) else Inl OutOfBounds)"

definition c_string :: "u8 list \<Rightarrow> bool" where
  "c_string buf \<longleftrightarrow> buf \<noteq> [] \<and> last buf = 0 \<and> 0 \<notin> set (butlast buf)"

subsection \<open>UTF-8 decoding\<close>

definition UTF8_INVALID :: u32 where
  "UTF8_INVALID = 0xFFFD"

text \<open>\<^verbatim>\<open>utf8_size\<close> reads the byte under the pointer and nothing else.\<close>

definition utf8_size :: "u8 list \<Rightarrow> nat \<Rightarrow> fault + nat" where
  "utf8_size buf pos =
     (case rd buf pos of
        Inl e \<Rightarrow> Inl e
      | Inr b \<Rightarrow> Inr
          (if b = 0 then 0
           else if b AND 0x80 = 0 then 1
           else if b AND 0xE0 = 0xC0 then 2
           else if b AND 0xF0 = 0xE0 then 3
           else if b AND 0xF8 = 0xF0 then 4
           else 0))"

definition masks :: "u32 list" where
  "masks = [0x7F, 0x1F, 0x0F, 0x07]"

text \<open>
  The loop \<^verbatim>\<open>for (i = 1; i < size; i++)\<close> of \<^verbatim>\<open>utf8_decode\<close>: it shifts the
  accumulator by six bits and reads \<^verbatim>\<open>str[i]\<close>, whatever that byte is.
\<close>

function utf8_decode_loop :: "u8 list \<Rightarrow> nat \<Rightarrow> nat \<Rightarrow> nat \<Rightarrow> u32 \<Rightarrow> fault + u32" where
  "utf8_decode_loop buf pos sz i ret =
     (if i < sz then
        (case rd buf (pos + i) of
           Inl e \<Rightarrow> Inl e
         | Inr b \<Rightarrow> utf8_decode_loop buf pos sz (Suc i) (push_bit 6 ret OR ucast (b AND 0x3F)))
      else Inr ret)"
  by pat_completeness auto
termination
  by (relation "measure (\<lambda>(buf, pos, sz, i, ret). sz - i)") auto

declare utf8_decode_loop.simps [simp del]

text \<open>
  \<^verbatim>\<open>utf8_decode\<close> returns the scalar value and the advanced pointer. The cast
  \<^verbatim>\<open>(uint32_t)str[0]\<close> may sign-extend, and the mask, at most \<^verbatim>\<open>0x7F\<close>, removes
  the extension, so the zero-extending \<open>ucast\<close> gives the same value.
\<close>

definition utf8_decode :: "u8 list \<Rightarrow> nat \<Rightarrow> fault + (u32 \<times> nat)" where
  "utf8_decode buf pos =
     (case utf8_size buf pos of
        Inl e \<Rightarrow> Inl e
      | Inr sz \<Rightarrow>
          if sz = 0 then Inr (UTF8_INVALID, pos + 1)
          else
            (case rd buf pos of
               Inl e \<Rightarrow> Inl e
             | Inr b0 \<Rightarrow>
                 (case utf8_decode_loop buf pos sz 1 (ucast b0 AND masks ! (sz - 1)) of
                    Inl e \<Rightarrow> Inl e
                  | Inr ret \<Rightarrow> Inr (ret, pos + sz))))"

subsection \<open>Key codes and key symbols\<close>

text \<open>
  The evdev key codes of \<^verbatim>\<open>linux/input-event-codes.h\<close> and the key symbols of
  \<^verbatim>\<open>xkbcommon-keysyms.h\<close> that the file names, with the values of these headers.
\<close>

definition KEY_1 :: u32 where
  "KEY_1 = 2"

definition KEY_2 :: u32 where
  "KEY_2 = 3"

definition KEY_3 :: u32 where
  "KEY_3 = 4"

definition KEY_4 :: u32 where
  "KEY_4 = 5"

definition KEY_5 :: u32 where
  "KEY_5 = 6"

definition KEY_6 :: u32 where
  "KEY_6 = 7"

definition KEY_7 :: u32 where
  "KEY_7 = 8"

definition KEY_8 :: u32 where
  "KEY_8 = 9"

definition KEY_9 :: u32 where
  "KEY_9 = 10"

definition KEY_0 :: u32 where
  "KEY_0 = 11"

definition KEY_MINUS :: u32 where
  "KEY_MINUS = 12"

definition KEY_EQUAL :: u32 where
  "KEY_EQUAL = 13"

definition KEY_BACKSPACE :: u32 where
  "KEY_BACKSPACE = 14"

definition KEY_Q :: u32 where
  "KEY_Q = 16"

definition KEY_W :: u32 where
  "KEY_W = 17"

definition KEY_E :: u32 where
  "KEY_E = 18"

definition KEY_R :: u32 where
  "KEY_R = 19"

definition KEY_T :: u32 where
  "KEY_T = 20"

definition KEY_Y :: u32 where
  "KEY_Y = 21"

definition KEY_U :: u32 where
  "KEY_U = 22"

definition KEY_I :: u32 where
  "KEY_I = 23"

definition KEY_O :: u32 where
  "KEY_O = 24"

definition KEY_P :: u32 where
  "KEY_P = 25"

definition KEY_LEFTBRACE :: u32 where
  "KEY_LEFTBRACE = 26"

definition KEY_RIGHTBRACE :: u32 where
  "KEY_RIGHTBRACE = 27"

definition KEY_ENTER :: u32 where
  "KEY_ENTER = 28"

definition KEY_LEFTCTRL :: u32 where
  "KEY_LEFTCTRL = 29"

definition KEY_A :: u32 where
  "KEY_A = 30"

definition KEY_S :: u32 where
  "KEY_S = 31"

definition KEY_D :: u32 where
  "KEY_D = 32"

definition KEY_F :: u32 where
  "KEY_F = 33"

definition KEY_G :: u32 where
  "KEY_G = 34"

definition KEY_H :: u32 where
  "KEY_H = 35"

definition KEY_J :: u32 where
  "KEY_J = 36"

definition KEY_K :: u32 where
  "KEY_K = 37"

definition KEY_L :: u32 where
  "KEY_L = 38"

definition KEY_SEMICOLON :: u32 where
  "KEY_SEMICOLON = 39"

definition KEY_APOSTROPHE :: u32 where
  "KEY_APOSTROPHE = 40"

definition KEY_GRAVE :: u32 where
  "KEY_GRAVE = 41"

definition KEY_LEFTSHIFT :: u32 where
  "KEY_LEFTSHIFT = 42"

definition KEY_BACKSLASH :: u32 where
  "KEY_BACKSLASH = 43"

definition KEY_Z :: u32 where
  "KEY_Z = 44"

definition KEY_X :: u32 where
  "KEY_X = 45"

definition KEY_C :: u32 where
  "KEY_C = 46"

definition KEY_V :: u32 where
  "KEY_V = 47"

definition KEY_B :: u32 where
  "KEY_B = 48"

definition KEY_N :: u32 where
  "KEY_N = 49"

definition KEY_M :: u32 where
  "KEY_M = 50"

definition KEY_COMMA :: u32 where
  "KEY_COMMA = 51"

definition KEY_DOT :: u32 where
  "KEY_DOT = 52"

definition KEY_SLASH :: u32 where
  "KEY_SLASH = 53"

definition KEY_LEFTALT :: u32 where
  "KEY_LEFTALT = 56"

definition KEY_LEFT :: u32 where
  "KEY_LEFT = 105"

definition KEY_RIGHT :: u32 where
  "KEY_RIGHT = 106"

definition KEY_DELETE :: u32 where
  "KEY_DELETE = 111"

definition XKB_KEY_NoSymbol :: u32 where
  "XKB_KEY_NoSymbol = 0"

definition XKB_KEY_EuroSign :: u32 where
  "XKB_KEY_EuroSign = 0x20ac"

definition XKB_KEY_Return :: u32 where
  "XKB_KEY_Return = 0xff0d"

definition XKB_KEY_BackSpace :: u32 where
  "XKB_KEY_BackSpace = 0xff08"

definition XKB_KEY_Delete :: u32 where
  "XKB_KEY_Delete = 0xffff"

definition XKB_KEY_Left :: u32 where
  "XKB_KEY_Left = 0xff51"

definition XKB_KEY_Right :: u32 where
  "XKB_KEY_Right = 0xff53"

definition XKB_KEYCODE_INVALID :: u32 where
  "XKB_KEYCODE_INVALID = 0xffffffff"

definition WLR_MODIFIER_SHIFT :: u32 where
  "WLR_MODIFIER_SHIFT = 1"

definition WLR_MODIFIER_CTRL :: u32 where
  "WLR_MODIFIER_CTRL = 4"

definition WLR_MODIFIER_ALT :: u32 where
  "WLR_MODIFIER_ALT = 8"

text \<open>The catalog of key codes that the allocator hands out, in the order of the source.\<close>

definition allow_keycodes :: "u32 list" where
  "allow_keycodes =
     [KEY_1, KEY_2, KEY_3, KEY_4, KEY_5, KEY_6, KEY_7, KEY_8, KEY_9, KEY_0, KEY_MINUS, KEY_EQUAL,
      KEY_Q, KEY_W, KEY_E, KEY_R, KEY_T, KEY_Y, KEY_U, KEY_I, KEY_O, KEY_P, KEY_LEFTBRACE,
      KEY_RIGHTBRACE,
      KEY_A, KEY_S, KEY_D, KEY_F, KEY_G, KEY_H, KEY_J, KEY_K, KEY_L, KEY_SEMICOLON,
      KEY_APOSTROPHE, KEY_GRAVE, KEY_BACKSLASH,
      KEY_Z, KEY_X, KEY_C, KEY_V, KEY_B, KEY_N, KEY_M, KEY_COMMA, KEY_DOT, KEY_SLASH]"

definition allow_keycodes_len :: nat where
  "allow_keycodes_len = length allow_keycodes"

text \<open>
  A \<^verbatim>\<open>struct wlserver_input_method_key\<close> is the pair of its key code and its key
  symbol.
\<close>

type_synonym wlserver_input_method_key = "u32 \<times> u32"

text \<open>
  Modelled from the spec: the enumeration \<^verbatim>\<open>gamescope_input_method_action\<close> is declared
  in the generated protocol header, which is not among the sources. Its values are the
  five editing actions of the action table (submit, delete-left, delete-right, move-left,
  move-right) and the value for no action, under the names that \<^verbatim>\<open>ime.cpp\<close> uses.
  \<^verbatim>\<open>ime_handle_set_action\<close> casts the number on the wire to the enumeration without a
  check, so a value outside the enumeration is a value of the type as well.
\<close>

datatype gamescope_input_method_action =
  ACTION_NONE | ACTION_SUBMIT | ACTION_DELETE_LEFT | ACTION_DELETE_RIGHT
  | ACTION_MOVE_LEFT | ACTION_MOVE_RIGHT | ACTION_OTHER u32

text \<open>
  The table \<^verbatim>\<open>actions\<close>, an unordered map in the source, as the list of the pairs of
  its initialiser. The list is a lookup table only: \<^verbatim>\<open>actions.count\<close> and
  \<^verbatim>\<open>actions[action]\<close> are \<open>map_of actions\<close>. The order in which the source iterates
  over the map is not the order of this list; it is the field \<open>actions_iteration\<close> below.
\<close>

definition actions :: "(gamescope_input_method_action \<times> wlserver_input_method_key) list" where
  "actions =
     [(ACTION_SUBMIT, (KEY_ENTER, XKB_KEY_Return)),
      (ACTION_DELETE_LEFT, (KEY_BACKSPACE, XKB_KEY_BackSpace)),
      (ACTION_DELETE_RIGHT, (KEY_DELETE, XKB_KEY_Delete)),
      (ACTION_MOVE_LEFT, (KEY_LEFT, XKB_KEY_Left)),
      (ACTION_MOVE_RIGHT, (KEY_RIGHT, XKB_KEY_Right))]"

subsection \<open>The keymap library\<close>

text \<open>
  libxkbcommon is not part of the repository. Its functions are the fields of a record,
  the library, that every operation takes as its first argument. A compiled keymap is a pointer, an
  opaque number here, and the introspection functions take it as their first argument.
  \<^verbatim>\<open>xkb_keysym_get_name\<close> gives its return value and the name it wrote;
  \<^verbatim>\<open>xkb_keymap_new_from_buffer\<close> gives \<open>None\<close> for a null pointer;
  \<^verbatim>\<open>xkb_keymap_key_get_mods_for_level\<close> gives all the masks of the level, and the
  call with room for one mask stores the first of them. The library bounds the largest
  key code of a keymap by \<^verbatim>\<open>XKB_KEYCODE_MAX = 0xfffffffe\<close>, so the counter of the loop
  over the key codes does not wrap; key codes, layouts and levels of a keymap are
  natural numbers.
\<close>

type_synonym xkb_keymap = nat

record xkb =
  xkb_utf32_to_keysym :: "u32 \<Rightarrow> u32"
  xkb_keysym_get_name :: "u32 \<Rightarrow> int \<times> string"
  xkb_keymap_new_from_buffer :: "string \<Rightarrow> xkb_keymap option"
  xkb_keymap_min_keycode :: "xkb_keymap \<Rightarrow> nat"
  xkb_keymap_max_keycode :: "xkb_keymap \<Rightarrow> nat"
  xkb_keymap_num_layouts_for_key :: "xkb_keymap \<Rightarrow> nat \<Rightarrow> nat"
  xkb_keymap_num_levels_for_key :: "xkb_keymap \<Rightarrow> nat \<Rightarrow> nat \<Rightarrow> nat"
  xkb_keymap_key_get_syms_by_level :: "xkb_keymap \<Rightarrow> nat \<Rightarrow> nat \<Rightarrow> nat \<Rightarrow> u32 list"
  xkb_keymap_key_get_mods_for_level :: "xkb_keymap \<Rightarrow> nat \<Rightarrow> nat \<Rightarrow> nat \<Rightarrow> u32 list"
  actions_iteration :: "(gamescope_input_method_action \<times> wlserver_input_method_key) list"

text \<open>
  The last field is not of libxkbcommon but of the C++ library: the order in which a loop
  over the unordered map \<^verbatim>\<open>actions\<close> visits its entries. The standard leaves that
  order open, so it is a parameter like the functions above. The map is never modified,
  so every loop over it visits each entry once, and every loop in the same order:
  \<open>iterates_actions\<close>.
\<close>

definition iterates_actions :: "xkb \<Rightarrow> bool" where
  "iterates_actions L \<longleftrightarrow>
     distinct (actions_iteration L) \<and> set (actions_iteration L) = set actions"

subsection \<open>The session, the seat and the world\<close>

record wlserver_input_method =
  resource :: nat
  serial :: u32
  pending_string :: "u8 list option"
  pending_action :: gamescope_input_method_action
  keyboard_keymap :: "xkb_keymap option"
  keys :: "wlserver_input_method_key list"
  next_keycode_index :: u32

datatype wlr_device = VirtualKeyboard | ImeKeyboard nat | OtherKeyboard nat

record wlr_keyboard_modifiers =
  depressed :: u32
  latched :: u32
  locked :: u32
  group :: u32

datatype key_state = RELEASED | PRESSED

text \<open>
  The calls into the seat and the emulated keyboard, in the order in which the handler
  makes them: \<^verbatim>\<open>wlr_keyboard_set_keymap\<close>, \<^verbatim>\<open>wlr_seat_set_keyboard\<close>,
  \<^verbatim>\<open>wlr_seat_keyboard_notify_modifiers\<close> and \<^verbatim>\<open>wlr_seat_keyboard_notify_key\<close>
  (always with the time 0).
\<close>

datatype seat_call =
  SetKeymap wlr_device xkb_keymap
  | SetKeyboard wlr_device
  | NotifyModifiers wlr_keyboard_modifiers
  | NotifyKey u32 key_state

datatype ime_event = Unavailable | Done u32

datatype diag =
  KeyCodesWrapped | GetNameFailed u32 | CannotType u32 | FailedGenerateKeymap
  | UnsupportedAction gamescope_input_method_action

datatype timer = ImeResetTimer nat | ManagerResetTimer

text \<open>
  Modelled from the spec: \<^verbatim>\<open>struct wlserver_t\<close> with its seat and its virtual keyboard
  device is declared in \<^verbatim>\<open>wlserver.hpp\<close>, and the notifications \<^verbatim>\<open>unavailable\<close> and
  \<^verbatim>\<open>done\<close> in the generated protocol header; neither is among the sources. The seat
  tracks the current keyboard device, and the two notifications go to the client.

  The world is everything the handlers read and write: the user data of the protocol
  resources (\<open>None\<close> is the null pointer), the global \<^verbatim>\<open>active_input_method\<close>
  (the resource of the active session), the keyboard of the seat, the modifiers of each
  keyboard, the keymap of the server's virtual keyboard, the calls made into the seat,
  the events sent to clients, the log and the armed timers with their delay in
  milliseconds.
\<close>

record world =
  user_data :: "nat \<rightharpoonup> wlserver_input_method"
  active_input_method :: "nat option"
  seat_keyboard :: "wlr_device option"
  kbd_modifiers :: "wlr_device \<Rightarrow> wlr_keyboard_modifiers"
  virtual_keymap :: xkb_keymap
  seat_calls :: "seat_call list"
  sent :: "(nat \<times> ime_event) list"
  ime_log :: "diag list"
  timers :: "timer \<rightharpoonup> nat"

definition errorf :: "diag \<Rightarrow> world \<Rightarrow> world" where
  "errorf d w = w\<lparr>ime_log := ime_log w @ [d]\<rparr>"

subsection \<open>Key symbols and the key code allocator\<close>

definition keysym_from_ch :: "xkb \<Rightarrow> u32 \<Rightarrow> u32" where
  "keysym_from_ch L ch = (if ch = 0x20ac then XKB_KEY_EuroSign else xkb_utf32_to_keysym L ch)"

text \<open>
  \<^verbatim>\<open>keycode_from_ch\<close> changes the queue and the cursor of the session and may log. The
  index \<^verbatim>\<open>next_keycode_index++ % allow_keycodes_len\<close> is computed from the 32-bit
  cursor before the increment, and the increment wraps.
\<close>

definition keycode_from_ch ::
  "xkb \<Rightarrow> u32 \<Rightarrow> wlserver_input_method \<times> world \<Rightarrow> u32 \<times> wlserver_input_method \<times> world" where
  "keycode_from_ch L ch c =
     (let ime = fst c; w = snd c; ks = keysym_from_ch L ch in
      if ks = XKB_KEY_NoSymbol then (XKB_KEYCODE_INVALID, ime, w)
      else if keys ime \<noteq> [] \<and> snd (last (keys ime)) = ks then (fst (last (keys ime)), ime, w)
      else
        let full = (length (keys ime) \<ge> allow_keycodes_len);
            w1 = (if full then errorf KeyCodesWrapped w else w);
            q = (if full then tl (keys ime) else keys ime);
            kc = allow_keycodes ! (unat (next_keycode_index ime) mod allow_keycodes_len)
        in (kc, ime\<lparr>keys := q @ [(kc, ks)], next_keycode_index := next_keycode_index ime + 1\<rparr>, w1))"

subsection \<open>Keymap synthesis\<close>

text \<open>The output of \<^verbatim>\<open>%u\<close>: the decimal digits of a number.\<close>

function dec :: "nat \<Rightarrow> string" where
  "dec n = (if n < 10 then [char_of (48 + n)] else dec (n div 10) @ [char_of (48 + n mod 10)])"
  by pat_completeness auto
termination
  by (relation "measure (\<lambda>n. n)") auto

declare dec.simps [simp del]

definition nl :: string where
  "nl = [CHR 0x0A]"

definition tab :: string where
  "tab = [CHR 0x09]"

definition dq :: string where
  "dq = [CHR 0x22]"

definition keycode_offset :: u32 where
  "keycode_offset = 8"

text \<open>The line that binds the name of a key code to its number, offset by 8.\<close>

definition keycode_line :: "u32 \<Rightarrow> string" where
  "keycode_line kc =
     tab @ ''<K'' @ dec (unat kc) @ ''> = '' @ dec (unat (kc + keycode_offset)) @ '';'' @ nl"

text \<open>The line that gives a key code its one symbol.\<close>

definition symbol_line :: "u32 \<Rightarrow> string \<Rightarrow> string" where
  "symbol_line kc name = tab @ ''key <K'' @ dec (unat kc) @ ''> {[ '' @ name @ '' ]};'' @ nl"

text \<open>
  \<^verbatim>\<open>generate_keymap_key\<close> appends to the stream \<open>f\<close>, or logs and returns false when
  the library has no name for the symbol.
\<close>

definition generate_keymap_key ::
  "xkb \<Rightarrow> u32 \<Rightarrow> u32 \<Rightarrow> string \<times> world \<Rightarrow> bool \<times> string \<times> world" where
  "generate_keymap_key L kc ks fw =
     (let f = fst fw; w = snd fw; r = xkb_keysym_get_name L ks in
      if fst r \<le> 0 then (False, f, errorf (GetNameFailed ks) w)
      else (True, f @ symbol_line kc (snd r), w))"

text \<open>The two loops that print the bindings of the key code names.\<close>

fun keycodes_loop :: "wlserver_input_method_key list \<Rightarrow> string \<Rightarrow> string" where
  "keycodes_loop [] f = f"
| "keycodes_loop (kk # kks) f = keycodes_loop kks (f @ keycode_line (fst kk))"

text \<open>The two loops that print the symbols; they stop at the first symbol without a name.\<close>

fun symbols_loop ::
  "xkb \<Rightarrow> wlserver_input_method_key list \<Rightarrow> string \<times> world \<Rightarrow> bool \<times> string \<times> world" where
  "symbols_loop L [] fw = (True, fw)"
| "symbols_loop L (kk # kks) fw =
     (case generate_keymap_key L (fst kk) (snd kk) fw of
        (ok, fw') \<Rightarrow> if ok then symbols_loop L kks fw' else (False, fw'))"

definition keymap_header :: string where
  "keymap_header =
     ''xkb_keymap {'' @ nl @ nl @
     ''xkb_keycodes '' @ dq @ ''(unnamed)'' @ dq @ '' {'' @ nl @
     tab @ ''minimum = '' @ dec (unat (keycode_offset + KEY_1)) @ '';'' @ nl @
     tab @ ''maximum = '' @ dec (unat (keycode_offset + KEY_DELETE)) @ '';'' @ nl"

definition keymap_middle :: string where
  "keymap_middle =
     ''};'' @ nl @ nl @
     ''xkb_types '' @ dq @ ''(unnamed)'' @ dq @ '' { include '' @ dq @ ''complete'' @ dq @ '' };'' @ nl @ nl @
     ''xkb_compatibility '' @ dq @ ''(unnamed)'' @ dq @ '' { include '' @ dq @ ''complete'' @ dq @ '' };'' @ nl @ nl @
     ''xkb_symbols '' @ dq @ ''(unnamed)'' @ dq @ '' {'' @ nl"

definition keymap_footer :: string where
  "keymap_footer = ''};'' @ nl @ nl @ ''};'' @ nl"

text \<open>
  The first part of \<^verbatim>\<open>generate_keymap\<close>: the text handed to the compiler, or
  \<open>None\<close> where the function returns a null pointer before it compiles anything.
\<close>

definition keymap_description :: "xkb \<Rightarrow> wlserver_input_method \<Rightarrow> world \<Rightarrow> string option \<times> world" where
  "keymap_description L ime w =
     (let f1 = keycodes_loop (keys ime) keymap_header;
          f2 = keycodes_loop (map snd (actions_iteration L)) f1;
          f3 = f2 @ keymap_middle
      in case symbols_loop L (keys ime) (f3, w) of
           (ok, f4, w4) \<Rightarrow>
             if \<not> ok then (None, w4)
             else
               (case symbols_loop L (map snd (actions_iteration L)) (f4, w4) of
                  (ok', f5, w5) \<Rightarrow>
                    if \<not> ok' then (None, w5) else (Some (f5 @ keymap_footer), w5)))"

definition generate_keymap :: "xkb \<Rightarrow> wlserver_input_method \<Rightarrow> world \<Rightarrow> xkb_keymap option \<times> world" where
  "generate_keymap L ime w =
     (case keymap_description L ime w of
        (None, w') \<Rightarrow> (None, w')
      | (Some str, w') \<Rightarrow> (xkb_keymap_new_from_buffer L str, w'))"

subsection \<open>Calls into the seat\<close>

definition wlr_keyboard_set_keymap :: "wlr_device \<Rightarrow> xkb_keymap \<Rightarrow> world \<Rightarrow> world" where
  "wlr_keyboard_set_keymap dev km w = w\<lparr>seat_calls := seat_calls w @ [SetKeymap dev km]\<rparr>"

definition wlr_seat_set_keyboard :: "wlr_device \<Rightarrow> world \<Rightarrow> world" where
  "wlr_seat_set_keyboard dev w =
     w\<lparr>seat_keyboard := Some dev, seat_calls := seat_calls w @ [SetKeyboard dev]\<rparr>"

definition wlr_seat_keyboard_notify_modifiers :: "wlr_keyboard_modifiers \<Rightarrow> world \<Rightarrow> world" where
  "wlr_seat_keyboard_notify_modifiers m w = w\<lparr>seat_calls := seat_calls w @ [NotifyModifiers m]\<rparr>"

definition wlr_seat_keyboard_notify_key :: "key_state \<Rightarrow> u32 \<Rightarrow> world \<Rightarrow> world" where
  "wlr_seat_keyboard_notify_key st k w = w\<lparr>seat_calls := seat_calls w @ [NotifyKey k st]\<rparr>"

definition wl_event_source_timer_update :: "timer \<Rightarrow> nat \<Rightarrow> world \<Rightarrow> world" where
  "wl_event_source_timer_update t ms w = w\<lparr>timers := (timers w)(t \<mapsto> ms)\<rparr>"

definition no_modifiers :: wlr_keyboard_modifiers where
  "no_modifiers = \<lparr>depressed = 0, latched = 0, locked = 0, group = 0\<rparr>"

subsection \<open>Typing a symbol with the keymap of the virtual keyboard\<close>

text \<open>
  The body of the innermost loop of \<^verbatim>\<open>try_type_keysym\<close> up to the assertion: each
  \<^verbatim>\<open>continue\<close> is \<open>None\<close>, and a level that passes gives its modifier mask.
\<close>

definition level_mask :: "xkb \<Rightarrow> xkb_keymap \<Rightarrow> u32 \<Rightarrow> nat \<Rightarrow> nat \<Rightarrow> nat \<Rightarrow> u32 option" where
  "level_mask L km ks kc layout level =
     (case xkb_keymap_key_get_syms_by_level L km kc layout level of
        [s] \<Rightarrow>
          if s \<noteq> ks then None
          else
            (case take 1 (xkb_keymap_key_get_mods_for_level L km kc layout level) of
               [msk] \<Rightarrow>
                 if msk AND (WLR_MODIFIER_SHIFT OR WLR_MODIFIER_CTRL OR WLR_MODIFIER_ALT) \<noteq> msk
                 then None else Some msk
             | _ \<Rightarrow> None)
      | _ \<Rightarrow> None)"

function level_loop :: "xkb \<Rightarrow> xkb_keymap \<Rightarrow> u32 \<Rightarrow> nat \<Rightarrow> nat \<Rightarrow> nat \<Rightarrow> nat \<Rightarrow> u32 option" where
  "level_loop L km ks kc layout num_levels level =
     (if level < num_levels then
        (case level_mask L km ks kc layout level of
           Some msk \<Rightarrow> Some msk
         | None \<Rightarrow> level_loop L km ks kc layout num_levels (Suc level))
      else None)"
  by pat_completeness auto
termination
  by (relation "measure (\<lambda>(L, km, ks, kc, layout, num_levels, level). num_levels - level)") auto

declare level_loop.simps [simp del]

function layout_loop :: "xkb \<Rightarrow> xkb_keymap \<Rightarrow> u32 \<Rightarrow> nat \<Rightarrow> nat \<Rightarrow> nat \<Rightarrow> u32 option" where
  "layout_loop L km ks kc num_layouts layout =
     (if layout < num_layouts then
        (case level_loop L km ks kc layout (xkb_keymap_num_levels_for_key L km kc layout) 0 of
           Some msk \<Rightarrow> Some msk
         | None \<Rightarrow> layout_loop L km ks kc num_layouts (Suc layout))
      else None)"
  by pat_completeness auto
termination
  by (relation "measure (\<lambda>(L, km, ks, kc, num_layouts, layout). num_layouts - layout)") auto

declare layout_loop.simps [simp del]

text \<open>The outer loop, from a key code up to and including the largest one of the keymap.\<close>

function keycode_loop :: "xkb \<Rightarrow> xkb_keymap \<Rightarrow> u32 \<Rightarrow> nat \<Rightarrow> nat \<Rightarrow> (nat \<times> u32) option" where
  "keycode_loop L km ks max_kc kc =
     (if kc \<le> max_kc then
        (case layout_loop L km ks kc (xkb_keymap_num_layouts_for_key L km kc) 0 of
           Some msk \<Rightarrow> Some (kc, msk)
         | None \<Rightarrow> keycode_loop L km ks max_kc (Suc kc))
      else None)"
  by pat_completeness auto
termination
  by (relation "measure (\<lambda>(L, km, ks, max_kc, kc). Suc max_kc - kc)") auto

declare keycode_loop.simps [simp del]

text \<open>
  \<^verbatim>\<open>try_type_keysym\<close>: the search, the assertion, the array \<^verbatim>\<open>keycodes\<close> filled in
  the order shift, control, alt, target, and the calls into the seat. The presses run
  over the array from its first entry, the releases from its last.
\<close>

definition try_type_keysym :: "xkb \<Rightarrow> u32 \<Rightarrow> world \<Rightarrow> fault + (bool \<times> world)" where
  "try_type_keysym L ks w =
     (let km = virtual_keymap w in
      case keycode_loop L km ks (xkb_keymap_max_keycode L km) (xkb_keymap_min_keycode L km) of
        None \<Rightarrow> Inr (False, w)
      | Some (kc, msk) \<Rightarrow>
          if kc < 8 then Inl AssertFailed
          else
            let keycodes =
                  (if msk AND WLR_MODIFIER_SHIFT \<noteq> 0 then [KEY_LEFTSHIFT] else []) @
                  (if msk AND WLR_MODIFIER_CTRL \<noteq> 0 then [KEY_LEFTCTRL] else []) @
                  (if msk AND WLR_MODIFIER_ALT \<noteq> 0 then [KEY_LEFTALT] else []) @
                  [of_nat (kc - 8)];
                prev_mods =
                  (case seat_keyboard w of None \<Rightarrow> no_modifiers | Some d \<Rightarrow> kbd_modifiers w d);
                mods = no_modifiers\<lparr>depressed := msk\<rparr>;
                w1 = wlr_seat_set_keyboard VirtualKeyboard w;
                w2 = wlr_seat_keyboard_notify_modifiers mods w1;
                w3 = fold (wlr_seat_keyboard_notify_key PRESSED) keycodes w2;
                w4 = fold (wlr_seat_keyboard_notify_key RELEASED) (rev keycodes) w3;
                w5 = wlr_seat_keyboard_notify_modifiers prev_mods w4
            in Inr (True, w5))"

subsection \<open>Typing text and performing actions\<close>

text \<open>
  The loop \<^verbatim>\<open>while (text[0] != '\0')\<close> of \<^verbatim>\<open>type_text\<close>. The pointer
  \<^verbatim>\<open>text\<close> is the index \<open>pos\<close>; the vector \<^verbatim>\<open>keycodes\<close> grows at its end.
\<close>

function type_text_loop ::
  "xkb \<Rightarrow> u8 list \<Rightarrow> nat \<Rightarrow> wlserver_input_method \<times> world \<Rightarrow> u32 list
     \<Rightarrow> fault + ((wlserver_input_method \<times> world) \<times> u32 list)" where
  "type_text_loop L text pos c keycodes =
     (case rd text pos of
        Inl e \<Rightarrow> Inl e
      | Inr b \<Rightarrow>
          if b = 0 then Inr (c, keycodes)
          else
            (case utf8_decode text pos of
               Inl e \<Rightarrow> Inl e
             | Inr (ch, pos') \<Rightarrow>
                 (case keycode_from_ch L ch c of
                    (kc, ime', w') \<Rightarrow>
                      if kc = XKB_KEYCODE_INVALID
                      then type_text_loop L text pos' (ime', errorf (CannotType ch) w') keycodes
                      else type_text_loop L text pos' (ime', w') (keycodes @ [kc]))))"
  by pat_completeness auto
termination
  by (relation "measure (\<lambda>(L, text, pos, c, keycodes). length text - pos)")
     (auto simp: rd_def utf8_decode_def utf8_size_def split: if_splits sum.splits)

declare type_text_loop.simps [simp del]

text \<open>
  The part of \<^verbatim>\<open>type_text\<close> from the declaration of \<^verbatim>\<open>keycodes\<close> to the end:
  allocate, synthesise, install, switch the seat to the session's keyboard, press and
  release each key code, arm the idle timer of the session.
\<close>

definition type_text_synth ::
  "xkb \<Rightarrow> u8 list \<Rightarrow> wlserver_input_method \<times> world \<Rightarrow> fault + (wlserver_input_method \<times> world)" where
  "type_text_synth L text c =
     (case type_text_loop L text 0 c [] of
        Inl e \<Rightarrow> Inl e
      | Inr ((ime1, w1), keycodes) \<Rightarrow>
          (case generate_keymap L ime1 w1 of
             (None, w2) \<Rightarrow> Inr (ime1, errorf FailedGenerateKeymap w2)
           | (Some km, w2) \<Rightarrow>
               let dev = ImeKeyboard (resource ime1);
                   w3 = wlr_keyboard_set_keymap dev km w2;
                   w4 = wlr_seat_set_keyboard dev w3;
                   w5 = fold (\<lambda>k v. wlr_seat_keyboard_notify_key RELEASED k
                                        (wlr_seat_keyboard_notify_key PRESSED k v)) keycodes w4;
                   w6 = wl_event_source_timer_update (ImeResetTimer (resource ime1)) 100 w5
               in Inr (ime1\<lparr>keyboard_keymap := Some km\<rparr>, w6)))"

text \<open>
  \<^verbatim>\<open>type_text\<close>. The condition of its first \<^verbatim>\<open>if\<close> reads \<^verbatim>\<open>text[1]\<close> only when
  \<^verbatim>\<open>utf8_size(text)\<close> is 1, and calls \<^verbatim>\<open>try_type_keysym\<close> only when the symbol
  of the byte \<^verbatim>\<open>text[0]\<close> is not \<^verbatim>\<open>XKB_KEY_NoSymbol\<close>.
\<close>

definition type_text ::
  "xkb \<Rightarrow> u8 list \<Rightarrow> wlserver_input_method \<times> world \<Rightarrow> fault + (wlserver_input_method \<times> world)" where
  "type_text L text c =
     (let ime = fst c; w = snd c in
      case utf8_size text 0 of
        Inl e \<Rightarrow> Inl e
      | Inr sz \<Rightarrow>
          (case (if sz = 1 then rd text 1 else Inr 0) of
             Inl e \<Rightarrow> Inl e
           | Inr b1 \<Rightarrow>
               if sz = 1 \<and> b1 = 0 \<and> keys ime = []
                  \<and> keysym_from_ch L (ucast (text ! 0)) \<noteq> XKB_KEY_NoSymbol
               then
                 (case try_type_keysym L (keysym_from_ch L (ucast (text ! 0))) w of
                    Inl e \<Rightarrow> Inl e
                  | Inr (typed, w') \<Rightarrow>
                      if typed then Inr (ime, w') else type_text_synth L text (ime, w'))
               else type_text_synth L text c))"

definition perform_action ::
  "xkb \<Rightarrow> gamescope_input_method_action \<Rightarrow> wlserver_input_method \<times> world
     \<Rightarrow> fault + (wlserver_input_method \<times> world)" where
  "perform_action L act c =
     (let ime = fst c; w = snd c in
      case map_of actions act of
        None \<Rightarrow> Inr (ime, errorf (UnsupportedAction act) w)
      | Some key \<Rightarrow>
          (case try_type_keysym L (snd key) w of
             Inl e \<Rightarrow> Inl e
           | Inr (typed, w') \<Rightarrow>
               if typed then Inr (ime, w')
               else
                 (case generate_keymap L ime w' of
                    (None, w2) \<Rightarrow> Inr (ime, errorf FailedGenerateKeymap w2)
                  | (Some km, w2) \<Rightarrow>
                      let dev = ImeKeyboard (resource ime);
                          w3 = wlr_keyboard_set_keymap dev km w2;
                          w4 = wlr_seat_set_keyboard dev w3;
                          w5 = wlr_seat_keyboard_notify_key PRESSED (fst key) w4;
                          w6 = wlr_seat_keyboard_notify_key RELEASED (fst key) w5
                      in Inr (ime\<lparr>keyboard_keymap := Some km\<rparr>, w6))))"

subsection \<open>The protocol handlers\<close>

text \<open>
  Each handler takes the resource it is called on. Its user data is the session, or the
  null pointer for a resource whose creation was answered with \<^verbatim>\<open>unavailable\<close>; the
  handlers dereference it without a check.
\<close>

definition ime_handle_commit :: "xkb \<Rightarrow> nat \<Rightarrow> u32 \<Rightarrow> world \<Rightarrow> fault + world" where
  "ime_handle_commit L r ser w =
     (case user_data w r of
        None \<Rightarrow> Inl NullDeref
      | Some ime \<Rightarrow>
          if ser \<noteq> serial ime then Inr w
          else
            (case (case pending_string ime of
                     None \<Rightarrow> Inr (ime, w)
                   | Some text \<Rightarrow> type_text L text (ime, w)) of
               Inl e \<Rightarrow> Inl e
             | Inr (ime1, w1) \<Rightarrow>
                 (case (if pending_action ime1 \<noteq> ACTION_NONE
                        then perform_action L (pending_action ime1) (ime1, w1)
                        else Inr (ime1, w1)) of
                    Inl e \<Rightarrow> Inl e
                  | Inr (ime2, w2) \<Rightarrow>
                      Inr (wl_event_source_timer_update ManagerResetTimer 100
                             (w2\<lparr>user_data := (user_data w2)
                                   (r \<mapsto> ime2\<lparr>pending_string := None,
                                                pending_action := ACTION_NONE\<rparr>)\<rparr>)))))"

text \<open>\<^verbatim>\<open>strdup\<close> copies the bytes before the first zero byte and adds the terminator.\<close>

definition strdup :: "u8 list \<Rightarrow> u8 list" where
  "strdup text = takeWhile (\<lambda>b. b \<noteq> 0) text @ [0]"

definition ime_handle_set_string :: "nat \<Rightarrow> u8 list \<Rightarrow> world \<Rightarrow> fault + world" where
  "ime_handle_set_string r text w =
     (case user_data w r of
        None \<Rightarrow> Inl NullDeref
      | Some ime \<Rightarrow> Inr (w\<lparr>user_data := (user_data w)(r \<mapsto> ime\<lparr>pending_string := Some (strdup text)\<rparr>)\<rparr>))"

text \<open>The action is the value of the enumeration that the cast of the handler gives.\<close>

definition ime_handle_set_action :: "nat \<Rightarrow> gamescope_input_method_action \<Rightarrow> world \<Rightarrow> fault + world" where
  "ime_handle_set_action r act w =
     (case user_data w r of
        None \<Rightarrow> Inl NullDeref
      | Some ime \<Rightarrow> Inr (w\<lparr>user_data := (user_data w)(r \<mapsto> ime\<lparr>pending_action := act\<rparr>)\<rparr>))"

text \<open>
  \<^verbatim>\<open>ime_handle_resource_destroy\<close> runs when the resource is destroyed. Destroying the
  input device of the session makes the seat drop it, if it is the seat's keyboard.
\<close>

definition ime_handle_resource_destroy :: "nat \<Rightarrow> world \<Rightarrow> world" where
  "ime_handle_resource_destroy r w =
     (case user_data w r of
        None \<Rightarrow> w
      | Some ime \<Rightarrow>
          w\<lparr>active_input_method := None,
            user_data := (user_data w)(r := None),
            seat_keyboard :=
              (if seat_keyboard w = Some (ImeKeyboard r) then None else seat_keyboard w)\<rparr>)"

definition ime_handle_destroy :: "nat \<Rightarrow> world \<Rightarrow> world" where
  "ime_handle_destroy r w = ime_handle_resource_destroy r w"

definition reset_ime_keyboard :: "wlserver_input_method \<Rightarrow> wlserver_input_method" where
  "reset_ime_keyboard ime = ime\<lparr>keys := [], next_keycode_index := 0\<rparr>"

text \<open>
  \<^verbatim>\<open>manager_handle_create_input_method\<close> creates the resource \<open>r\<close> with null user
  data, then either answers \<^verbatim>\<open>unavailable\<close> or creates the session, stores it as the
  user data of the resource, answers \<^verbatim>\<open>done\<close> and registers the session.
\<close>

definition manager_handle_create_input_method :: "nat \<Rightarrow> world \<Rightarrow> world" where
  "manager_handle_create_input_method r w =
     (if active_input_method w \<noteq> None then w\<lparr>sent := sent w @ [(r, Unavailable)]\<rparr>
      else
        let ime = \<lparr>resource = r, serial = 1, pending_string = None,
                   pending_action = ACTION_NONE, keyboard_keymap = None, keys = [],
                   next_keycode_index = 0\<rparr>
        in w\<lparr>user_data := (user_data w)(r \<mapsto> ime),
             sent := sent w @ [(r, Done (serial ime))],
             active_input_method := Some r\<rparr>)"

text \<open>The requests of the two protocol interfaces and their dispatch to the handlers.\<close>

datatype request =
  CreateInputMethod nat
  | Commit nat u32
  | SetString nat "u8 list"
  | SetAction nat gamescope_input_method_action
  | Destroy nat

fun dispatch :: "xkb \<Rightarrow> request \<Rightarrow> world \<Rightarrow> fault + world" where
  "dispatch L (CreateInputMethod r) w = Inr (manager_handle_create_input_method r w)"
| "dispatch L (Commit r ser) w = ime_handle_commit L r ser w"
| "dispatch L (SetString r text) w = ime_handle_set_string r text w"
| "dispatch L (SetAction r act) w = ime_handle_set_action r act w"
| "dispatch L (Destroy r) w = Inr (ime_handle_destroy r w)"

fun run :: "xkb \<Rightarrow> request list \<Rightarrow> world \<Rightarrow> fault + world" where
  "run L [] w = Inr w"
| "run L (q # qs) w = (case dispatch L q w of Inl e \<Rightarrow> Inl e | Inr w' \<Rightarrow> run L qs w')"

subsection \<open>Worlds that differ in the log only\<close>

text \<open>
  \<open>logs_more w w'\<close>: the world \<open>w'\<close> is \<open>w\<close> with more lines in the log, none of
  them the line that \<^verbatim>\<open>type_text\<close> and \<^verbatim>\<open>perform_action\<close> write when the synthesis
  of the keymap fails.
\<close>

definition logs_more :: "world \<Rightarrow> world \<Rightarrow> bool" where
  "logs_more w w' \<longleftrightarrow>
     (\<exists>ds. FailedGenerateKeymap \<notin> set ds \<and> w' = w\<lparr>ime_log := ime_log w @ ds\<rparr>)"

subsection \<open>Worlds with the same sessions\<close>

text \<open>
  \<open>same_registry w w'\<close>: the user data, the registered session, the events sent to clients,
  the virtual keymap and the modifiers of the keyboards are the same in both worlds.
\<close>

definition same_registry :: "world \<Rightarrow> world \<Rightarrow> bool" where
  "same_registry w w' \<longleftrightarrow>
     user_data w' = user_data w \<and> active_input_method w' = active_input_method w
     \<and> sent w' = sent w \<and> virtual_keymap w' = virtual_keymap w
     \<and> kbd_modifiers w' = kbd_modifiers w"

text \<open>
  The sessions that exist are the user data that are not null. \<open>single_session\<close>: they are
  exactly the one that \<^verbatim>\<open>active_input_method\<close> points to, if any.
\<close>

definition single_session :: "world \<Rightarrow> bool" where
  "single_session w \<longleftrightarrow> dom (user_data w) = set_option (active_input_method w)"

subsection \<open>The calls of a direct match\<close>

text \<open>The keys of the modifiers that a mask asks for, in the order shift, control, alt.\<close>

definition modifier_keys :: "u32 \<Rightarrow> u32 list" where
  "modifier_keys msk =
     (if msk AND WLR_MODIFIER_SHIFT \<noteq> 0 then [KEY_LEFTSHIFT] else []) @
     (if msk AND WLR_MODIFIER_CTRL \<noteq> 0 then [KEY_LEFTCTRL] else []) @
     (if msk AND WLR_MODIFIER_ALT \<noteq> 0 then [KEY_LEFTALT] else [])"

text \<open>
  The calls that type the key code \<open>kc\<close> of the virtual keymap under the mask \<open>msk\<close>,
  written out in the order in which the seat gets them.
\<close>

definition direct_calls :: "world \<Rightarrow> nat \<Rightarrow> u32 \<Rightarrow> seat_call list" where
  "direct_calls w kc msk =
     [SetKeyboard VirtualKeyboard, NotifyModifiers (no_modifiers\<lparr>depressed := msk\<rparr>)]
     @ map (\<lambda>k. NotifyKey k PRESSED) (modifier_keys msk)
     @ [NotifyKey (of_nat (kc - 8)) PRESSED, NotifyKey (of_nat (kc - 8)) RELEASED]
     @ map (\<lambda>k. NotifyKey k RELEASED) (rev (modifier_keys msk))
     @ [NotifyModifiers (case seat_keyboard w of None \<Rightarrow> no_modifiers | Some d \<Rightarrow> kbd_modifiers w d)]"

subsection \<open>A library, a keymap and a world to compute with\<close>

text \<open>
  A small instance of the library for the concrete computations below. Its conversion
  maps the printable Latin-1 characters to themselves, as libxkbcommon does, and gives
  no symbol for anything else. Its virtual keymap \<open>0\<close> has the key code 9 with
  \<^verbatim>\<open>eacute\<close> on its only level, and the key code 10 with \<^verbatim>\<open>a\<close> on the first
  level and \<^verbatim>\<open>A\<close> on the second, reached with shift. The symbols of the action
  table and \<^verbatim>\<open>eacute\<close> have their names, any other symbol is named by its character,
  and the compiler accepts every text, giving the keymap \<open>1\<close>. Loops over the action table
  visit it from its last entry to its first.
\<close>

definition demo_xkb :: xkb where
  "demo_xkb =
     \<lparr>xkb_utf32_to_keysym =
        (\<lambda>ch. if (0x20 \<le> ch \<and> ch \<le> 0x7e) \<or> (0xa0 \<le> ch \<and> ch \<le> 0xff) then ch
              else XKB_KEY_NoSymbol),
      xkb_keysym_get_name =
        (\<lambda>ks. if ks = XKB_KEY_Return then (6, ''Return'')
              else if ks = XKB_KEY_BackSpace then (9, ''BackSpace'')
              else if ks = XKB_KEY_Delete then (6, ''Delete'')
              else if ks = XKB_KEY_Left then (4, ''Left'')
              else if ks = XKB_KEY_Right then (5, ''Right'')
              else if ks = 0xe9 then (6, ''eacute'')
              else (1, [char_of (unat ks)])),
      xkb_keymap_new_from_buffer = (\<lambda>str. Some 1),
      xkb_keymap_min_keycode = (\<lambda>km. 9),
      xkb_keymap_max_keycode = (\<lambda>km. 10),
      xkb_keymap_num_layouts_for_key = (\<lambda>km kc. if km = 0 \<and> (kc = 9 \<or> kc = 10) then 1 else 0),
      xkb_keymap_num_levels_for_key = (\<lambda>km kc layout. if kc = 9 then 1 else 2),
      xkb_keymap_key_get_syms_by_level =
        (\<lambda>km kc layout level.
           if kc = 9 then [0xe9] else if level = 0 then [0x61] else [0x41]),
      xkb_keymap_key_get_mods_for_level =
        (\<lambda>km kc layout level. if kc = 10 \<and> level = 1 then [WLR_MODIFIER_SHIFT] else [0]),
      actions_iteration = rev actions\<rparr>"

text \<open>The same library with a compiler that rejects every text.\<close>

definition rejecting_xkb :: xkb where
  "rejecting_xkb = demo_xkb\<lparr>xkb_keymap_new_from_buffer := (\<lambda>str. None)\<rparr>"

definition demo_ime :: wlserver_input_method where
  "demo_ime =
     \<lparr>resource = 7, serial = 1, pending_string = None, pending_action = ACTION_NONE,
      keyboard_keymap = None, keys = [], next_keycode_index = 0\<rparr>"

text \<open>A world with the session \<open>demo_ime\<close> on the resource 7 and nothing done yet.\<close>

definition demo_world :: world where
  "demo_world =
     \<lparr>user_data = [7 \<mapsto> demo_ime], active_input_method = Some 7, seat_keyboard = None,
      kbd_modifiers = (\<lambda>d. no_modifiers), virtual_keymap = 0, seat_calls = [], sent = [],
      ime_log = [], timers = Map.empty\<rparr>"

text \<open>
  The session after the 47 characters from \<^verbatim>\<open>!\<close> to \<^verbatim>\<open>O\<close> have been allocated one
  after the other, starting from the empty queue.
\<close>

definition full_ime :: wlserver_input_method where
  "full_ime =
     fst (fold (\<lambda>ch d. snd (keycode_from_ch demo_xkb ch d)) (map of_nat [0x21 ..< 0x50])
            (demo_ime, demo_world))"

text \<open>
  The session with the text \<^verbatim>\<open>a\<close> and the action submit pending, and the world that
  holds it.
\<close>

definition pending_ime :: wlserver_input_method where
  "pending_ime = demo_ime\<lparr>pending_string := Some [0x61, 0], pending_action := ACTION_SUBMIT\<rparr>"

definition pending_world :: world where
  "pending_world = demo_world\<lparr>user_data := [7 \<mapsto> pending_ime]\<rparr>"

text \<open>The world before any session is created, and the world after the requests
  create 7, set the text of 7, create 8.\<close>

definition idle_world :: world where
  "idle_world = demo_world\<lparr>user_data := Map.empty, active_input_method := None\<rparr>"

definition busy_world :: world where
  "busy_world =
     idle_world\<lparr>user_data := [7 \<mapsto> demo_ime\<lparr>pending_string := Some [0x61, 0]\<rparr>],
                sent := [(7, Done 1), (8, Unavailable)],
                active_input_method := Some 7\<rparr>"

text \<open>
  The world in which the client has set the one byte \<^verbatim>\<open>C3\<close> as the pending text of the
  session.
\<close>

definition truncated_world :: world where
  "truncated_world =
     demo_world\<lparr>user_data := [7 \<mapsto> demo_ime\<lparr>pending_string := Some (strdup [0xC3])\<rparr>]\<rparr>"

text \<open>The session after the text \<^verbatim>\<open>C3 A9\<close> has been typed through a synthesised keymap.\<close>

definition typed_ime :: wlserver_input_method where
  "typed_ime = demo_ime\<lparr>keyboard_keymap := Some 1, keys := [(KEY_1, 0xe9)], next_keycode_index := 1\<rparr>"

section \<open>Auxiliary facts\<close>

subsection \<open>The catalog\<close>

lemmas key_defs =
  KEY_1_def KEY_2_def KEY_3_def KEY_4_def KEY_5_def KEY_6_def KEY_7_def KEY_8_def KEY_9_def
  KEY_0_def KEY_MINUS_def KEY_EQUAL_def KEY_Q_def KEY_W_def KEY_E_def KEY_R_def KEY_T_def
  KEY_Y_def KEY_U_def KEY_I_def KEY_O_def KEY_P_def KEY_LEFTBRACE_def KEY_RIGHTBRACE_def
  KEY_A_def KEY_S_def KEY_D_def KEY_F_def KEY_G_def KEY_H_def KEY_J_def KEY_K_def KEY_L_def
  KEY_SEMICOLON_def KEY_APOSTROPHE_def KEY_GRAVE_def KEY_BACKSLASH_def KEY_Z_def KEY_X_def
  KEY_C_def KEY_V_def KEY_B_def KEY_N_def KEY_M_def KEY_COMMA_def KEY_DOT_def KEY_SLASH_def

lemma allow_keycodes_len_47: "allow_keycodes_len = 47"
  by (simp add: allow_keycodes_len_def allow_keycodes_def)

lemma allow_keycodes_valid: "kc \<in> set allow_keycodes \<Longrightarrow> kc \<noteq> XKB_KEYCODE_INVALID"
  by (auto simp: allow_keycodes_def key_defs XKB_KEYCODE_INVALID_def)

lemma allow_keycodes_nth_valid: "allow_keycodes ! (n mod allow_keycodes_len) \<noteq> XKB_KEYCODE_INVALID"
proof -
  have "n mod allow_keycodes_len < length allow_keycodes"
    by (simp add: allow_keycodes_len_47 allow_keycodes_len_def [symmetric])
  then have "allow_keycodes ! (n mod allow_keycodes_len) \<in> set allow_keycodes"
    by (rule nth_mem)
  then show ?thesis by (rule allow_keycodes_valid)
qed

subsection \<open>Operations that only log\<close>

lemma logs_more_refl: "logs_more w w"
  unfolding logs_more_def by (rule exI [of _ "[]"]) simp

lemma logs_more_trans:
  assumes "logs_more w w'" and "logs_more w' w''"
  shows "logs_more w w''"
proof -
  from assms obtain ds ds' where
    a: "FailedGenerateKeymap \<notin> set ds" "w' = w\<lparr>ime_log := ime_log w @ ds\<rparr>" and
    b: "FailedGenerateKeymap \<notin> set ds'" "w'' = w'\<lparr>ime_log := ime_log w' @ ds'\<rparr>"
    unfolding logs_more_def by blast
  have "FailedGenerateKeymap \<notin> set (ds @ ds') \<and> w'' = w\<lparr>ime_log := ime_log w @ (ds @ ds')\<rparr>"
    using a b by simp
  then show ?thesis
    unfolding logs_more_def by (rule exI)
qed

lemma logs_more_errorf: "d \<noteq> FailedGenerateKeymap \<Longrightarrow> logs_more w (errorf d w)"
  unfolding logs_more_def errorf_def by (rule exI [of _ "[d]"]) simp

lemma keycode_from_ch_logs: "logs_more (snd c) (snd (snd (keycode_from_ch L ch c)))"
  by (simp add: keycode_from_ch_def Let_def logs_more_refl logs_more_errorf)

subsection \<open>The allocation loop\<close>

text \<open>
  An invariant of the loop of \<^verbatim>\<open>type_text\<close>: what holds at the start and is kept by both
  branches of the body holds when the loop returns.
\<close>

lemma type_text_loop_rule:
  assumes "type_text_loop L str pos c kcs = Inr (c', kcs')"
    and "P c kcs"
    and "\<And>d ks ch kc ime' w'. P d ks \<Longrightarrow> keycode_from_ch L ch d = (kc, ime', w') \<Longrightarrow>
           kc = XKB_KEYCODE_INVALID \<Longrightarrow> P (ime', errorf (CannotType ch) w') ks"
    and "\<And>d ks ch kc ime' w'. P d ks \<Longrightarrow> keycode_from_ch L ch d = (kc, ime', w') \<Longrightarrow>
           kc \<noteq> XKB_KEYCODE_INVALID \<Longrightarrow> P (ime', w') (ks @ [kc])"
  shows "P c' kcs'"
  using assms
proof (induction L str pos c kcs rule: type_text_loop.induct)
  case (1 L str pos c keycodes)
  note inv = "1.prems"(3) and val = "1.prems"(4)
  show ?case
  proof (cases "rd str pos")
    case (Inl e)
    with "1.prems" show ?thesis by (simp add: type_text_loop.simps [of L str pos])
  next
    case (Inr b)
    show ?thesis
    proof (cases "b = 0")
      case True
      with Inr "1.prems" show ?thesis
        by (simp add: type_text_loop.simps [of L str pos])
    next
      case False
      show ?thesis
      proof (cases "utf8_decode str pos")
        case (Inl e)
        with Inr False "1.prems" show ?thesis by (simp add: type_text_loop.simps [of L str pos])
      next
        case dec: (Inr p)
        obtain ch pos' where p: "p = (ch, pos')" by (cases p)
        obtain kc ime' w' where k: "keycode_from_ch L ch c = (kc, ime', w')"
          by (cases "keycode_from_ch L ch c")
        show ?thesis
        proof (cases "kc = XKB_KEYCODE_INVALID")
          case True
          with Inr False dec p k "1.prems"
          have run: "type_text_loop L str pos' (ime', errorf (CannotType ch) w') keycodes = Inr (c', kcs')"
            by (simp add: type_text_loop.simps [of L str pos])
          have "P (ime', errorf (CannotType ch) w') keycodes"
            using "1.prems"(2) k True by (rule inv)
          with "1.IH"(1) [OF Inr False dec p [symmetric] k [symmetric] refl True run] inv val
          show ?thesis by blast
        next
          case nv: False
          with Inr False dec p k "1.prems"
          have run: "type_text_loop L str pos' (ime', w') (keycodes @ [kc]) = Inr (c', kcs')"
            by (simp add: type_text_loop.simps [of L str pos])
          have "P (ime', w') (keycodes @ [kc])"
            using "1.prems"(2) k nv by (rule val)
          with "1.IH"(2) [OF Inr False dec p [symmetric] k [symmetric] refl nv run] inv val
          show ?thesis by blast
        qed
      qed
    qed
  qed
qed

lemma keycode_from_ch_invalid:
  assumes "keycode_from_ch L ch c = (kc, ime', w')" and "kc = XKB_KEYCODE_INVALID"
  shows "ime' = fst c \<and> w' = snd c"
  using assms allow_keycodes_nth_valid
  by (auto simp: keycode_from_ch_def Let_def split: if_splits)

lemma keycode_from_ch_length:
  "length (keys (fst c)) \<le> allow_keycodes_len \<Longrightarrow>
   length (keys (fst (snd (keycode_from_ch L ch c)))) \<le> allow_keycodes_len"
  by (auto simp: keycode_from_ch_def Let_def allow_keycodes_len_47)

subsection \<open>What the operations leave alone\<close>

lemma same_registry_refl: "same_registry w w"
  by (simp add: same_registry_def)

lemma same_registry_trans: "same_registry w w' \<Longrightarrow> same_registry w' w'' \<Longrightarrow> same_registry w w''"
  by (simp add: same_registry_def)

lemma logs_more_same_registry: "logs_more w w' \<Longrightarrow> same_registry w w'"
  by (auto simp: logs_more_def same_registry_def)

lemma type_text_loop_logs:
  assumes "type_text_loop L str pos c kcs = Inr (c', kcs')"
  shows "logs_more (snd c) (snd c')"
proof -
  have "logs_more (snd c) (snd c') \<and> True"
  proof (rule type_text_loop_rule [OF assms, where P = "\<lambda>d ks. logs_more (snd c) (snd d) \<and> True"])
    show "logs_more (snd c) (snd c) \<and> True" by (simp add: logs_more_refl)
  next
    fix d ks ch kc ime' w'
    assume a: "logs_more (snd c) (snd d) \<and> True" and k: "keycode_from_ch L ch d = (kc, ime', w')"
    have "logs_more (snd d) w'"
      using keycode_from_ch_logs [of d L ch] k by simp
    with a have b: "logs_more (snd c) w'" by (blast intro: logs_more_trans)
    then show "logs_more (snd c) (snd (ime', w')) \<and> True" by simp
    have "logs_more w' (errorf (CannotType ch) w')"
      by (rule logs_more_errorf) simp
    with b
    show "logs_more (snd c) (snd (ime', errorf (CannotType ch) w')) \<and> True"
      by (auto intro: logs_more_trans)
  qed
  then show ?thesis ..
qed

lemma generate_keymap_key_logs: "logs_more (snd fw) (snd (snd (generate_keymap_key L kc ks fw)))"
  by (simp add: generate_keymap_key_def Let_def logs_more_refl logs_more_errorf)

lemma symbols_loop_logs: "logs_more (snd fw) (snd (snd (symbols_loop L kks fw)))"
proof (induction kks arbitrary: fw)
  case Nil
  show ?case by (simp add: logs_more_refl)
next
  case (Cons kk kks)
  obtain ok f' w' where g: "generate_keymap_key L (fst kk) (snd kk) fw = (ok, f', w')"
    by (cases "generate_keymap_key L (fst kk) (snd kk) fw")
  have s: "logs_more (snd fw) w'"
    using generate_keymap_key_logs [of fw L "fst kk" "snd kk"] g by simp
  show ?case
  proof (cases ok)
    case True
    with g Cons.IH [of "(f', w')"] s show ?thesis
      by (auto intro: logs_more_trans)
  next
    case False
    with g s show ?thesis by simp
  qed
qed

lemma keymap_description_logs: "logs_more w (snd (keymap_description L ime w))"
proof -
  let ?f3 = "keycodes_loop (map snd (actions_iteration L)) (keycodes_loop (keys ime) keymap_header) @ keymap_middle"
  obtain ok f4 w4 where a: "symbols_loop L (keys ime) (?f3, w) = (ok, f4, w4)"
    by (cases "symbols_loop L (keys ime) (?f3, w)")
  obtain ok' f5 w5 where b: "symbols_loop L (map snd (actions_iteration L)) (f4, w4) = (ok', f5, w5)"
    by (cases "symbols_loop L (map snd (actions_iteration L)) (f4, w4)")
  have 1: "logs_more w w4"
    using symbols_loop_logs [of "(?f3, w)" L "keys ime"] a by simp
  have 2: "logs_more w4 w5"
    using symbols_loop_logs [of "(f4, w4)" L "map snd (actions_iteration L)"] b by simp
  from 1 2 have 3: "logs_more w w5" by (rule logs_more_trans)
  show ?thesis
    using a b 1 3 by (simp add: keymap_description_def Let_def)
qed

lemma generate_keymap_logs: "logs_more w (snd (generate_keymap L ime w))"
proof -
  obtain t w' where d: "keymap_description L ime w = (t, w')"
    by (cases "keymap_description L ime w")
  have "logs_more w w'"
    using keymap_description_logs [of w L ime] d by simp
  with d show ?thesis
    by (cases t) (simp_all add: generate_keymap_def)
qed

lemma fold_notify_key:
  "fold (wlr_seat_keyboard_notify_key st) ks w =
     w\<lparr>seat_calls := seat_calls w @ map (\<lambda>k. NotifyKey k st) ks\<rparr>"
  by (induction ks arbitrary: w) (simp_all add: wlr_seat_keyboard_notify_key_def)

lemma fold_press_release:
  "fold (\<lambda>k v. wlr_seat_keyboard_notify_key RELEASED k (wlr_seat_keyboard_notify_key PRESSED k v)) ks w =
     w\<lparr>seat_calls := seat_calls w @ concat (map (\<lambda>k. [NotifyKey k PRESSED, NotifyKey k RELEASED]) ks)\<rparr>"
  by (induction ks arbitrary: w) (simp_all add: wlr_seat_keyboard_notify_key_def)

lemma try_type_keysym_false: "try_type_keysym L ks w = Inr (False, w') \<Longrightarrow> w' = w"
  by (auto simp: try_type_keysym_def Let_def split: option.splits if_splits)

lemma try_type_keysym_same_registry:
  "try_type_keysym L ks w = Inr (b, w') \<Longrightarrow> same_registry w w'"
  by (auto simp: try_type_keysym_def Let_def same_registry_def fold_notify_key
      wlr_seat_keyboard_notify_modifiers_def wlr_seat_set_keyboard_def
      split: option.splits if_splits)

lemma type_text_synth_same_registry:
  assumes "type_text_synth L str c = Inr (ime', w')"
  shows "same_registry (snd c) w'"
proof -
  from assms obtain ime1 w1 kcs where l: "type_text_loop L str 0 c [] = Inr ((ime1, w1), kcs)"
    by (auto simp: type_text_synth_def split: sum.splits)
  have 1: "same_registry (snd c) w1"
    using type_text_loop_logs [OF l] by (simp add: logs_more_same_registry)
  obtain r w2 where g: "generate_keymap L ime1 w1 = (r, w2)"
    by (cases "generate_keymap L ime1 w1")
  have 2: "same_registry w1 w2"
    using generate_keymap_logs [of w1 L ime1] g by (simp add: logs_more_same_registry)
  have "same_registry w2 w'"
    using assms l g
    by (cases r) (auto simp: type_text_synth_def Let_def same_registry_def errorf_def fold_press_release
        wlr_keyboard_set_keymap_def wlr_seat_set_keyboard_def wl_event_source_timer_update_def)
  with 1 2 show ?thesis by (blast intro: same_registry_trans)
qed

lemma type_text_same_registry:
  assumes "type_text L str c = Inr (ime', w')"
  shows "same_registry (snd c) w'"
proof (cases "type_text L str c = type_text_synth L str c")
  case True
  with assms show ?thesis
    using type_text_synth_same_registry [of L str c ime' w'] by simp
next
  case False
  let ?ks = "keysym_from_ch L (ucast (str ! 0))"
  from False obtain typed w0 where t: "try_type_keysym L ?ks (snd c) = Inr (typed, w0)"
    and r: "type_text L str c = (if typed then Inr (fst c, w0) else type_text_synth L str (fst c, w0))"
    using assms by (auto simp: type_text_def Let_def split: sum.splits if_splits)
  show ?thesis
  proof (cases typed)
    case True
    with r assms have "w' = w0" by simp
    with t show ?thesis by (auto dest: try_type_keysym_same_registry)
  next
    case nt: False
    with t have "w0 = snd c" by (auto dest: try_type_keysym_false)
    with nt r have "type_text L str c = type_text_synth L str c" by simp
    with False show ?thesis by simp
  qed
qed

lemma perform_action_same_registry:
  assumes "perform_action L act c = Inr (ime', w')"
  shows "same_registry (snd c) w'"
proof (cases "map_of actions act")
  case None
  with assms show ?thesis
    by (auto simp: perform_action_def Let_def same_registry_def errorf_def)
next
  case (Some key)
  show ?thesis
  proof (cases "try_type_keysym L (snd key) (snd c)")
    case (Inl e)
    with assms Some show ?thesis by (simp add: perform_action_def Let_def)
  next
    case (Inr p)
    obtain typed w0 where p: "p = (typed, w0)" by (cases p)
    show ?thesis
    proof (cases typed)
      case True
      with assms Some Inr p show ?thesis
        by (auto simp: perform_action_def Let_def dest: try_type_keysym_same_registry)
    next
      case False
      with Inr p have w0: "w0 = snd c" by (auto dest: try_type_keysym_false)
      obtain r w2 where g: "generate_keymap L (fst c) (snd c) = (r, w2)"
        by (cases "generate_keymap L (fst c) (snd c)")
      have 2: "same_registry (snd c) w2"
        using generate_keymap_logs [of "snd c" L "fst c"] g by (simp add: logs_more_same_registry)
      have "same_registry w2 w'"
        using assms Some Inr p False w0 g
        by (cases r) (auto simp: perform_action_def Let_def same_registry_def errorf_def
            wlr_keyboard_set_keymap_def wlr_seat_set_keyboard_def wlr_seat_keyboard_notify_key_def)
      with 2 show ?thesis by (blast intro: same_registry_trans)
    qed
  qed
qed

subsection \<open>The allocator\<close>

lemma fold_keycode_from_ch_length:
  "length (keys (fst c)) \<le> allow_keycodes_len \<Longrightarrow>
   length (keys (fst (fold (\<lambda>ch d. snd (keycode_from_ch L ch d)) chs c))) \<le> allow_keycodes_len"
proof (induction chs arbitrary: c)
  case Nil
  then show ?case by simp
next
  case (Cons ch chs)
  have "length (keys (fst (snd (keycode_from_ch L ch c)))) \<le> allow_keycodes_len"
    using Cons.prems by (rule keycode_from_ch_length)
  then show ?case
    using Cons.IH [of "snd (keycode_from_ch L ch c)"] by simp
qed

lemma keycode_from_ch_evicts:
  assumes "keysym_from_ch L ch \<noteq> XKB_KEY_NoSymbol"
    and "keys (fst c) = [] \<or> snd (last (keys (fst c))) \<noteq> keysym_from_ch L ch"
    and "length (keys (fst c)) = allow_keycodes_len"
  shows "keycode_from_ch L ch c =
           (allow_keycodes ! (unat (next_keycode_index (fst c)) mod allow_keycodes_len),
            (fst c)\<lparr>keys := tl (keys (fst c)) @
                        [(allow_keycodes ! (unat (next_keycode_index (fst c)) mod allow_keycodes_len),
                          keysym_from_ch L ch)],
                     next_keycode_index := next_keycode_index (fst c) + 1\<rparr>,
            errorf KeyCodesWrapped (snd c))"
  using assms by (auto simp: keycode_from_ch_def Let_def)

subsection \<open>One session at a time\<close>

lemma single_session_card: "single_session w \<Longrightarrow> card (dom (user_data w)) \<le> 1"
  by (cases "active_input_method w") (simp_all add: single_session_def)

lemma commit_single_session:
  assumes "single_session w" and "ime_handle_commit L r ser w = Inr w'"
  shows "single_session w'"
proof (cases "user_data w r")
  case None
  with assms show ?thesis by (simp add: ime_handle_commit_def)
next
  case (Some ime)
  show ?thesis
  proof (cases "ser = serial ime")
    case False
    with assms Some show ?thesis by (simp add: ime_handle_commit_def)
  next
    case True
    from assms(2) Some True obtain ime1 w1 ime2 w2 where
      t: "(case pending_string ime of None \<Rightarrow> Inr (ime, w) | Some str \<Rightarrow> type_text L str (ime, w)) = Inr (ime1, w1)"
      and p: "(if pending_action ime1 \<noteq> ACTION_NONE then perform_action L (pending_action ime1) (ime1, w1)
               else Inr (ime1, w1)) = Inr (ime2, w2)"
      and w': "w' = wl_event_source_timer_update ManagerResetTimer 100
                 (w2\<lparr>user_data := (user_data w2)(r \<mapsto> ime2\<lparr>pending_string := None, pending_action := ACTION_NONE\<rparr>)\<rparr>)"
      by (auto simp: ime_handle_commit_def split: sum.splits)
    have 1: "same_registry w w1"
      using t type_text_same_registry [of L _ "(ime, w)" ime1 w1]
      by (auto simp: same_registry_refl split: option.splits)
    have 2: "same_registry w1 w2"
      using p perform_action_same_registry [of L _ "(ime1, w1)" ime2 w2]
      by (auto simp: same_registry_refl split: if_splits)
    from 1 2 have "same_registry w w2" by (rule same_registry_trans)
    then have u: "user_data w2 = user_data w" and a: "active_input_method w2 = active_input_method w"
      by (simp_all add: same_registry_def)
    from Some have "r \<in> dom (user_data w)" by auto
    then have "insert r (dom (user_data w)) = dom (user_data w)" by auto
    with assms(1) u a show ?thesis
      by (simp add: w' single_session_def wl_event_source_timer_update_def)
  qed
qed

lemma create_single_session:
  "single_session w \<Longrightarrow> single_session (manager_handle_create_input_method r w)"
  by (cases "active_input_method w")
     (simp_all add: manager_handle_create_input_method_def single_session_def Let_def)

lemma user_data_update_single_session:
  assumes "single_session w" and "user_data w r = Some ime"
  shows "single_session (w\<lparr>user_data := (user_data w)(r \<mapsto> ime')\<rparr>)"
proof -
  from assms(2) have "r \<in> dom (user_data w)" by auto
  then have "insert r (dom (user_data w)) = dom (user_data w)" by auto
  with assms(1) show ?thesis by (simp add: single_session_def)
qed

lemma destroy_single_session:
  assumes "single_session w"
  shows "single_session (ime_handle_resource_destroy r w)"
proof (cases "user_data w r")
  case None
  with assms show ?thesis by (simp add: ime_handle_resource_destroy_def)
next
  case (Some ime)
  then have "r \<in> dom (user_data w)" by auto
  with assms have "dom (user_data w) = {r}"
    by (cases "active_input_method w") (auto simp: single_session_def)
  with Some show ?thesis
    by (simp add: ime_handle_resource_destroy_def single_session_def)
qed

lemma dispatch_single_session:
  assumes "single_session w" and "dispatch L q w = Inr w'"
  shows "single_session w'"
proof (cases q)
  case (CreateInputMethod r)
  with assms show ?thesis by (auto intro: create_single_session)
next
  case (Commit r ser)
  with assms show ?thesis by (auto intro: commit_single_session)
next
  case (SetString r str)
  with assms show ?thesis
    by (auto simp: ime_handle_set_string_def split: option.splits
        intro: user_data_update_single_session)
next
  case (SetAction r act)
  with assms show ?thesis
    by (auto simp: ime_handle_set_action_def split: option.splits
        intro: user_data_update_single_session)
next
  case (Destroy r)
  with assms show ?thesis
    by (auto simp: ime_handle_destroy_def intro: destroy_single_session)
qed

lemma run_single_session:
  "single_session w \<Longrightarrow> run L qs w = Inr w' \<Longrightarrow> single_session w'"
proof (induction qs arbitrary: w)
  case Nil
  then show ?case by simp
next
  case (Cons q qs)
  from Cons.prems(2) obtain w1 where d: "dispatch L q w = Inr w1" and r: "run L qs w1 = Inr w'"
    by (auto split: sum.splits)
  from Cons.prems(1) d have "single_session w1" by (rule dispatch_single_session)
  from Cons.IH [OF this r] show ?case .
qed

subsection \<open>The search for a direct match\<close>

lemma level_mask_allowed:
  "level_mask L km ks kc layout level = Some msk \<Longrightarrow>
   msk AND (WLR_MODIFIER_SHIFT OR WLR_MODIFIER_CTRL OR WLR_MODIFIER_ALT) = msk
   \<and> xkb_keymap_key_get_syms_by_level L km kc layout level = [ks]"
  by (auto simp: level_mask_def split: list.splits if_splits)

lemma level_loop_Some:
  "level_loop L km ks kc layout n level = Some msk \<Longrightarrow>
   \<exists>lv. level \<le> lv \<and> lv < n \<and> level_mask L km ks kc layout lv = Some msk"
proof (induction L km ks kc layout n level rule: level_loop.induct)
  case (1 L km ks kc layout n level)
  show ?case
  proof (cases "level < n")
    case False
    with "1.prems" show ?thesis by (simp add: level_loop.simps [of L km ks kc layout n level])
  next
    case True
    show ?thesis
    proof (cases "level_mask L km ks kc layout level")
      case (Some m)
      with True "1.prems" have "m = msk"
        by (simp add: level_loop.simps [of L km ks kc layout n level])
      with Some True show ?thesis by auto
    next
      case None
      with True "1.prems" have "level_loop L km ks kc layout n (Suc level) = Some msk"
        by (simp add: level_loop.simps [of L km ks kc layout n level])
      from "1.IH" [OF True None this] show ?thesis
        by (auto intro: Suc_leD)
    qed
  qed
qed

lemma layout_loop_Some:
  "layout_loop L km ks kc n layout = Some msk \<Longrightarrow>
   \<exists>ly lv. layout \<le> ly \<and> ly < n \<and> lv < xkb_keymap_num_levels_for_key L km kc ly
      \<and> level_mask L km ks kc ly lv = Some msk"
proof (induction L km ks kc n layout rule: layout_loop.induct)
  case (1 L km ks kc n layout)
  show ?case
  proof (cases "layout < n")
    case False
    with "1.prems" show ?thesis by (simp add: layout_loop.simps [of L km ks kc n layout])
  next
    case True
    show ?thesis
    proof (cases "level_loop L km ks kc layout (xkb_keymap_num_levels_for_key L km kc layout) 0")
      case (Some m)
      with True "1.prems" have "m = msk"
        by (simp add: layout_loop.simps [of L km ks kc n layout])
      with Some level_loop_Some [of L km ks kc layout _ 0 msk] True show ?thesis by blast
    next
      case None
      with True "1.prems" have "layout_loop L km ks kc n (Suc layout) = Some msk"
        by (simp add: layout_loop.simps [of L km ks kc n layout])
      from "1.IH" [OF True None this] show ?thesis
        by (auto intro: Suc_leD)
    qed
  qed
qed

lemma keycode_loop_Some:
  "keycode_loop L km ks mx kc0 = Some (kc, msk) \<Longrightarrow>
   kc0 \<le> kc \<and> kc \<le> mx \<and>
   (\<exists>ly lv. ly < xkb_keymap_num_layouts_for_key L km kc
      \<and> lv < xkb_keymap_num_levels_for_key L km kc ly
      \<and> level_mask L km ks kc ly lv = Some msk)"
proof (induction L km ks mx kc0 rule: keycode_loop.induct)
  case (1 L km ks mx kc0)
  show ?case
  proof (cases "kc0 \<le> mx")
    case False
    with "1.prems" show ?thesis by (simp add: keycode_loop.simps [of L km ks mx kc0])
  next
    case True
    show ?thesis
    proof (cases "layout_loop L km ks kc0 (xkb_keymap_num_layouts_for_key L km kc0) 0")
      case (Some m)
      with True "1.prems" have "kc = kc0 \<and> m = msk"
        by (simp add: keycode_loop.simps [of L km ks mx kc0])
      with Some layout_loop_Some [of L km ks kc0 _ 0 msk] True show ?thesis by blast
    next
      case None
      with True "1.prems" have "keycode_loop L km ks mx (Suc kc0) = Some (kc, msk)"
        by (simp add: keycode_loop.simps [of L km ks mx kc0])
      from "1.IH" [OF True None this] show ?thesis
        by (auto intro: Suc_leD)
    qed
  qed
qed

lemma try_type_keysym_true:
  assumes "try_type_keysym L ks w = Inr (True, w')"
  shows "\<exists>kc msk.
           keycode_loop L (virtual_keymap w) ks (xkb_keymap_max_keycode L (virtual_keymap w))
             (xkb_keymap_min_keycode L (virtual_keymap w)) = Some (kc, msk)
           \<and> 8 \<le> kc
           \<and> w' = w\<lparr>seat_keyboard := Some VirtualKeyboard,
                     seat_calls := seat_calls w @ direct_calls w kc msk\<rparr>"
proof -
  let ?r = "keycode_loop L (virtual_keymap w) ks (xkb_keymap_max_keycode L (virtual_keymap w))
             (xkb_keymap_min_keycode L (virtual_keymap w))"
  from assms obtain kc msk where k: "?r = Some (kc, msk)"
    by (cases ?r) (auto simp: try_type_keysym_def Let_def)
  from assms k have g: "8 \<le> kc"
    by (cases "kc < 8") (auto simp: try_type_keysym_def Let_def)
  have kcs: "(if msk AND WLR_MODIFIER_SHIFT \<noteq> 0 then [KEY_LEFTSHIFT] else []) @
             (if msk AND WLR_MODIFIER_CTRL \<noteq> 0 then [KEY_LEFTCTRL] else []) @
             (if msk AND WLR_MODIFIER_ALT \<noteq> 0 then [KEY_LEFTALT] else []) @
             [of_nat (kc - 8)] = modifier_keys msk @ [of_nat (kc - 8)]"
    by (simp add: modifier_keys_def)
  from g have ng: "\<not> kc < 8" by simp
  from assms have "w' = w\<lparr>seat_keyboard := Some VirtualKeyboard,
                     seat_calls := seat_calls w @ direct_calls w kc msk\<rparr>"
    unfolding try_type_keysym_def Let_def k kcs
    by (simp add: ng fold_notify_key direct_calls_def modifier_keys_def
        wlr_seat_keyboard_notify_key_def
        wlr_seat_keyboard_notify_modifiers_def wlr_seat_set_keyboard_def del: of_nat_diff)
  with k g show ?thesis by blast
qed

subsection \<open>The ways in which typing returns\<close>

lemma logs_more_new_lines:
  "logs_more w w' \<Longrightarrow> FailedGenerateKeymap \<notin> set (drop (length (ime_log w)) (ime_log w'))"
  by (auto simp: logs_more_def)

lemma logs_more_seat:
  "logs_more w w' \<Longrightarrow>
   seat_calls w' = seat_calls w \<and> seat_keyboard w' = seat_keyboard w \<and> timers w' = timers w"
  by (auto simp: logs_more_def)

lemma keycode_from_ch_device:
  "keyboard_keymap (fst (snd (keycode_from_ch L ch c))) = keyboard_keymap (fst c)
   \<and> resource (fst (snd (keycode_from_ch L ch c))) = resource (fst c)"
  by (simp add: keycode_from_ch_def Let_def)

lemma type_text_loop_device:
  assumes "type_text_loop L str pos c kcs = Inr (c', kcs')"
  shows "keyboard_keymap (fst c') = keyboard_keymap (fst c) \<and> resource (fst c') = resource (fst c)"
proof (rule type_text_loop_rule [OF assms,
      where P = "\<lambda>d ks. keyboard_keymap (fst d) = keyboard_keymap (fst c) \<and> resource (fst d) = resource (fst c)"])
  show "keyboard_keymap (fst c) = keyboard_keymap (fst c) \<and> resource (fst c) = resource (fst c)"
    by simp
next
  fix d ks ch kc ime' w'
  assume a: "keyboard_keymap (fst d) = keyboard_keymap (fst c) \<and> resource (fst d) = resource (fst c)"
    and k: "keycode_from_ch L ch d = (kc, ime', w')"
  from keycode_from_ch_device [of L ch d] k a
  have b: "keyboard_keymap ime' = keyboard_keymap (fst c) \<and> resource ime' = resource (fst c)"
    by simp
  then show "keyboard_keymap (fst (ime', errorf (CannotType ch) w')) = keyboard_keymap (fst c)
     \<and> resource (fst (ime', errorf (CannotType ch) w')) = resource (fst c)" by simp
  from b show "keyboard_keymap (fst (ime', w')) = keyboard_keymap (fst c)
     \<and> resource (fst (ime', w')) = resource (fst c)" by simp
qed

text \<open>The two ways in which the second part of \<^verbatim>\<open>type_text\<close> returns.\<close>

lemma type_text_synth_cases:
  assumes "type_text_synth L str c = Inr (ime', w')"
  obtains (failed) ime1 w1 kcs w2 where
      "type_text_loop L str 0 c [] = Inr ((ime1, w1), kcs)"
      "generate_keymap L ime1 w1 = (None, w2)"
      "ime' = ime1" "w' = errorf FailedGenerateKeymap w2"
  | (typed) ime1 w1 kcs km w2 where
      "type_text_loop L str 0 c [] = Inr ((ime1, w1), kcs)"
      "generate_keymap L ime1 w1 = (Some km, w2)"
      "ime' = ime1\<lparr>keyboard_keymap := Some km\<rparr>"
      "w' = w2\<lparr>seat_keyboard := Some (ImeKeyboard (resource ime1)),
               seat_calls := seat_calls w2 @
                 [SetKeymap (ImeKeyboard (resource ime1)) km, SetKeyboard (ImeKeyboard (resource ime1))]
                 @ concat (map (\<lambda>k. [NotifyKey k PRESSED, NotifyKey k RELEASED]) kcs),
               timers := (timers w2)(ImeResetTimer (resource ime1) \<mapsto> 100)\<rparr>"
proof -
  from assms obtain ime1 w1 kcs where l: "type_text_loop L str 0 c [] = Inr ((ime1, w1), kcs)"
    by (auto simp: type_text_synth_def split: sum.splits)
  obtain r w2 where g: "generate_keymap L ime1 w1 = (r, w2)"
    by (cases "generate_keymap L ime1 w1")
  show thesis
  proof (cases r)
    case None
    with assms l g have "ime' = ime1" "w' = errorf FailedGenerateKeymap w2"
      by (simp_all add: type_text_synth_def)
    with l g None show thesis by (intro failed) simp_all
  next
    case (Some km)
    with assms l g have "ime' = ime1\<lparr>keyboard_keymap := Some km\<rparr>"
      "w' = w2\<lparr>seat_keyboard := Some (ImeKeyboard (resource ime1)),
               seat_calls := seat_calls w2 @
                 [SetKeymap (ImeKeyboard (resource ime1)) km, SetKeyboard (ImeKeyboard (resource ime1))]
                 @ concat (map (\<lambda>k. [NotifyKey k PRESSED, NotifyKey k RELEASED]) kcs),
               timers := (timers w2)(ImeResetTimer (resource ime1) \<mapsto> 100)\<rparr>"
      by (simp_all add: type_text_synth_def Let_def fold_press_release
          wlr_keyboard_set_keymap_def wlr_seat_set_keyboard_def wl_event_source_timer_update_def)
    with l g Some show thesis by (intro typed) simp_all
  qed
qed

lemma type_text_synth_failure:
  assumes "type_text_synth L str c = Inr (ime', w')"
    and "FailedGenerateKeymap \<in> set (drop (length (ime_log (snd c))) (ime_log w'))"
  shows "\<exists>w2. logs_more (snd c) w2 \<and> w' = errorf FailedGenerateKeymap w2
           \<and> keyboard_keymap ime' = keyboard_keymap (fst c)"
  using assms(1)
proof (cases rule: type_text_synth_cases)
  case (failed ime1 w1 kcs w2)
  have "logs_more (snd c) w1"
    using type_text_loop_logs [OF failed(1)] by simp
  moreover have "logs_more w1 w2"
    using generate_keymap_logs [of w1 L ime1] failed(2) by simp
  ultimately have "logs_more (snd c) w2" by (rule logs_more_trans)
  moreover have "keyboard_keymap ime' = keyboard_keymap (fst c)"
    using type_text_loop_device [OF failed(1)] failed(3) by simp
  ultimately show ?thesis using failed(4) by blast
next
  case (typed ime1 w1 kcs km w2)
  have "logs_more (snd c) w1"
    using type_text_loop_logs [OF typed(1)] by simp
  moreover have "logs_more w1 w2"
    using generate_keymap_logs [of w1 L ime1] typed(2) by simp
  ultimately have "logs_more (snd c) w2" by (rule logs_more_trans)
  then have "FailedGenerateKeymap \<notin> set (drop (length (ime_log (snd c))) (ime_log w2))"
    by (rule logs_more_new_lines)
  with assms(2) typed(4) show ?thesis by simp
qed

lemma try_type_keysym_log:
  "try_type_keysym L ks w = Inr (b, w') \<Longrightarrow> ime_log w' = ime_log w"
  by (cases b) (auto dest: try_type_keysym_true try_type_keysym_false)

lemma type_text_cases:
  assumes "type_text L str (ime, w) = Inr (ime', w')"
  obtains (direct) "utf8_size str 0 = Inr 1" "rd str 1 = Inr 0" "keys ime = []"
      "keysym_from_ch L (ucast (str ! 0)) \<noteq> XKB_KEY_NoSymbol"
      "try_type_keysym L (keysym_from_ch L (ucast (str ! 0))) w = Inr (True, w')" "ime' = ime"
  | (synth) "type_text_synth L str (ime, w) = Inr (ime', w')"
proof (cases "type_text L str (ime, w) = type_text_synth L str (ime, w)")
  case True
  with assms show thesis by (intro synth) simp
next
  case False
  let ?ks = "keysym_from_ch L (ucast (str ! 0))"
  from False assms obtain typed w0 where c: "utf8_size str 0 = Inr 1" "rd str 1 = Inr 0" "keys ime = []"
      "?ks \<noteq> XKB_KEY_NoSymbol"
    and t: "try_type_keysym L ?ks w = Inr (typed, w0)"
    and r: "type_text L str (ime, w) = (if typed then Inr (ime, w0) else type_text_synth L str (ime, w0))"
    by (auto simp: type_text_def Let_def split: sum.splits if_splits)
  show thesis
  proof (cases typed)
    case True
    with r assms t c show thesis by (intro direct) simp_all
  next
    case nt: False
    with t have "w0 = w" by (auto dest: try_type_keysym_false)
    with nt r False show thesis by simp
  qed
qed

subsection \<open>Operations that log the failure of the synthesis\<close>

lemma perform_action_failure:
  assumes "perform_action L act (ime, w) = Inr (ime', w')"
    and "FailedGenerateKeymap \<in> set (drop (length (ime_log w)) (ime_log w'))"
  shows "\<exists>w2. logs_more w w2 \<and> w' = errorf FailedGenerateKeymap w2 \<and> ime' = ime"
proof (cases "map_of actions act")
  case None
  with assms show ?thesis
    by (auto simp: perform_action_def Let_def errorf_def)
next
  case (Some key)
  show ?thesis
  proof (cases "try_type_keysym L (snd key) w")
    case (Inl e)
    with assms Some show ?thesis by (simp add: perform_action_def Let_def)
  next
    case (Inr p)
    obtain typed w0 where p: "p = (typed, w0)" by (cases p)
    show ?thesis
    proof (cases typed)
      case True
      with assms(1) Some Inr p have "w' = w0" by (simp add: perform_action_def Let_def)
      with Inr p have "ime_log w' = ime_log w" by (auto dest: try_type_keysym_log)
      with assms(2) show ?thesis by simp
    next
      case False
      with Inr p have w0: "w0 = w" by (auto dest: try_type_keysym_false)
      obtain r w2 where g: "generate_keymap L ime w = (r, w2)"
        by (cases "generate_keymap L ime w")
      have lm: "logs_more w w2"
        using generate_keymap_logs [of w L ime] g by simp
      show ?thesis
      proof (cases r)
        case None
        with assms(1) Some Inr p False w0 g lm show ?thesis
          by (auto simp: perform_action_def Let_def)
      next
        case (Some km)
        with assms(1) \<open>map_of actions act = Some key\<close> Inr p False w0 g
        have "ime_log w' = ime_log w2"
          by (auto simp: perform_action_def Let_def wlr_keyboard_set_keymap_def
              wlr_seat_set_keyboard_def wlr_seat_keyboard_notify_key_def)
        with logs_more_new_lines [OF lm] assms(2) show ?thesis by simp
      qed
    qed
  qed
qed

lemma type_text_failure:
  assumes "type_text L str (ime, w) = Inr (ime', w')"
    and "FailedGenerateKeymap \<in> set (drop (length (ime_log w)) (ime_log w'))"
  shows "\<exists>w2. logs_more w w2 \<and> w' = errorf FailedGenerateKeymap w2
           \<and> keyboard_keymap ime' = keyboard_keymap ime"
  using assms(1)
proof (cases rule: type_text_cases)
  case direct
  then have "ime_log w' = ime_log w" by (auto dest: try_type_keysym_log)
  with assms(2) show ?thesis by simp
next
  case synth
  from type_text_synth_failure [OF synth] assms(2) show ?thesis by simp
qed

subsection \<open>Texts that produce no key code\<close>

lemma low7: "b AND 0x80 = 0 \<Longrightarrow> b AND 0x7F = (b::8 word)"
proof -
  assume a: "b AND 0x80 = 0"
  have c: "(255 :: 8 word) = -1" by simp
  have "b AND 0x7F = (b AND 0x7F) OR (b AND 0x80)" using a by simp
  also have "\<dots> = b AND (0x7F OR 0x80)" by (simp only: bit.conj_disj_distrib)
  also have "\<dots> = b AND 255" by simp
  also have "\<dots> = b" by (simp only: c) simp
  finally show ?thesis .
qed

lemma ucast_low7: "b AND 0x80 = 0 \<Longrightarrow> (ucast (b::8 word) :: 32 word) AND 0x7F = ucast b"
proof -
  assume a: "b AND 0x80 = 0"
  have "(ucast b :: 32 word) AND 0x7F = ucast b AND ucast (0x7F :: 8 word)" by simp
  also have "\<dots> = ucast (b AND 0x7F)"
    by (simp only: unsigned_and_eq)
  also have "\<dots> = ucast b" using a by (simp only: low7)
  finally show ?thesis .
qed


lemma type_text_loop_keycodes:
  assumes "type_text_loop L str pos c kcs = Inr (c', kcs')"
  shows "length kcs \<le> length kcs' \<and> (length kcs' = length kcs \<longrightarrow> fst c' = fst c)"
proof (rule type_text_loop_rule [OF assms,
      where P = "\<lambda>d ks. length kcs \<le> length ks \<and> (length ks = length kcs \<longrightarrow> fst d = fst c)"])
  show "length kcs \<le> length kcs \<and> (length kcs = length kcs \<longrightarrow> fst c = fst c)" by simp
next
  fix d ch kc ime' w' and ks :: "u32 list"
  assume a: "length kcs \<le> length ks \<and> (length ks = length kcs \<longrightarrow> fst d = fst c)"
    and k: "keycode_from_ch L ch d = (kc, ime', w')" and "kc = XKB_KEYCODE_INVALID"
  then have "ime' = fst d" by (auto dest: keycode_from_ch_invalid)
  with a show "length kcs \<le> length ks
       \<and> (length ks = length kcs \<longrightarrow> fst (ime', errorf (CannotType ch) w') = fst c)"
    by simp
next
  fix d ch kc ime' w' and ks :: "u32 list"
  assume "length kcs \<le> length ks \<and> (length ks = length kcs \<longrightarrow> fst d = fst c)"
  then show "length kcs \<le> length (ks @ [kc])
       \<and> (length (ks @ [kc]) = length kcs \<longrightarrow> fst (ime', w') = fst c)"
    by simp
qed

lemma type_text_loop_rd:
  "type_text_loop L str pos c kcs = Inr r \<Longrightarrow> \<exists>b. rd str pos = Inr b"
  by (cases "rd str pos") (simp_all add: type_text_loop.simps [of L str pos])

lemma one_byte_decode:
  assumes "utf8_size str 0 = Inr 1"
  shows "rd str 0 = Inr (str ! 0) \<and> str ! 0 \<noteq> 0 \<and> utf8_decode str 0 = Inr (ucast (str ! 0), 1)"
proof -
  from assms have r: "rd str 0 = Inr (str ! 0)" and nz: "str ! 0 \<noteq> 0" and lo: "str ! 0 AND 0x80 = 0"
    by (auto simp: utf8_size_def rd_def split: if_splits)
  have "utf8_decode str 0 = Inr (ucast (str ! 0), 1)"
    using assms r ucast_low7 [OF lo]
    by (simp add: utf8_decode_def masks_def utf8_decode_loop.simps [of str 0 "Suc 0" "Suc 0"])
  with r nz show ?thesis by simp
qed

lemma one_byte_text_loop:
  assumes "utf8_size str 0 = Inr 1"
    and "type_text_loop L str 0 c [] = Inr (c', kcs')"
  shows "(\<exists>b. rd str 1 = Inr b)
     \<and> (keys (fst c) = [] \<and> keysym_from_ch L (ucast (str ! 0)) \<noteq> XKB_KEY_NoSymbol \<longrightarrow> kcs' \<noteq> [])"
proof -
  note d = one_byte_decode [OF assms(1)]
  obtain kc ime' w' where k: "keycode_from_ch L (ucast (str ! 0)) c = (kc, ime', w')"
    by (cases "keycode_from_ch L (ucast (str ! 0)) c")
  show ?thesis
  proof (cases "kc = XKB_KEYCODE_INVALID")
    case True
    with assms(2) d k
    have l: "type_text_loop L str 1 (ime', errorf (CannotType (ucast (str ! 0))) w') [] = Inr (c', kcs')"
      by (simp add: type_text_loop.simps [of L str 0])
    from k True have "\<not> (keys (fst c) = [] \<and> keysym_from_ch L (ucast (str ! 0)) \<noteq> XKB_KEY_NoSymbol)"
      using allow_keycodes_nth_valid
      by (auto simp: keycode_from_ch_def Let_def split: if_splits)
    with type_text_loop_rd [OF l] show ?thesis by auto
  next
    case False
    with assms(2) d k
    have l: "type_text_loop L str 1 (ime', w') [kc] = Inr (c', kcs')"
      by (simp add: type_text_loop.simps [of L str 0])
    from type_text_loop_keycodes [OF l] have "kcs' \<noteq> []" by auto
    with type_text_loop_rd [OF l] show ?thesis by simp
  qed
qed

subsection \<open>The text of the keymap\<close>

lemma keycodes_loop_eq:
  "keycodes_loop kks f = f @ concat (map (\<lambda>kk. keycode_line (fst kk)) kks)"
  by (induction kks arbitrary: f) simp_all

lemma symbols_loop_True:
  assumes "symbols_loop L kks (f, w) = (True, f', w')"
  shows "f' = f @ concat (map (\<lambda>kk. symbol_line (fst kk) (snd (xkb_keysym_get_name L (snd kk)))) kks)
     \<and> w' = w \<and> (\<forall>kk \<in> set kks. 0 < fst (xkb_keysym_get_name L (snd kk)))"
  using assms
proof (induction kks arbitrary: f)
  case Nil
  then show ?case by simp
next
  case (Cons kk kks)
  show ?case
  proof (cases "fst (xkb_keysym_get_name L (snd kk)) \<le> 0")
    case True
    with Cons.prems show ?thesis by (simp add: generate_keymap_key_def Let_def)
  next
    case False
    with Cons.prems
    have "symbols_loop L kks (f @ symbol_line (fst kk) (snd (xkb_keysym_get_name L (snd kk))), w) = (True, f', w')"
      by (simp add: generate_keymap_key_def Let_def)
    from Cons.IH [OF this] False show ?thesis by simp
  qed
qed

lemma keymap_description_Some:
  assumes "keymap_description L ime w = (Some txt, w')"
  shows "txt = keymap_header
           @ concat (map (\<lambda>kk. keycode_line (fst kk)) (keys ime @ map snd (actions_iteration L)))
           @ keymap_middle
           @ concat (map (\<lambda>kk. symbol_line (fst kk) (snd (xkb_keysym_get_name L (snd kk))))
               (keys ime @ map snd (actions_iteration L)))
           @ keymap_footer
     \<and> w' = w"
proof -
  let ?f3 = "keycodes_loop (map snd (actions_iteration L)) (keycodes_loop (keys ime) keymap_header) @ keymap_middle"
  obtain ok f4 w4 where a: "symbols_loop L (keys ime) (?f3, w) = (ok, f4, w4)"
    by (cases "symbols_loop L (keys ime) (?f3, w)")
  obtain ok' f5 w5 where b: "symbols_loop L (map snd (actions_iteration L)) (f4, w4) = (ok', f5, w5)"
    by (cases "symbols_loop L (map snd (actions_iteration L)) (f4, w4)")
  from assms a b have ok: "ok" "ok'" and t: "txt = f5 @ keymap_footer" "w' = w5"
    by (auto simp: keymap_description_def Let_def split: if_splits)
  from a ok have 1: "f4 = ?f3 @ concat (map (\<lambda>kk. symbol_line (fst kk) (snd (xkb_keysym_get_name L (snd kk)))) (keys ime))"
    and w4: "w4 = w"
    using symbols_loop_True [of L "keys ime" ?f3 w f4 w4] by simp_all
  from b ok have 2: "f5 = f4 @ concat (map (\<lambda>kk. symbol_line (fst kk) (snd (xkb_keysym_get_name L (snd kk)))) (map snd (actions_iteration L)))"
    and w5: "w5 = w4"
    using symbols_loop_True [of L "map snd (actions_iteration L)" f4 w4 f5 w5] by simp_all
  from t 1 2 w4 w5 show ?thesis
    by (simp add: keycodes_loop_eq)
qed

lemma concat_map_has:
  assumes "x \<in> set xs"
  shows "\<exists>pre post. concat (map g xs) = pre @ g x @ post"
proof -
  from assms obtain ys zs where "xs = ys @ x # zs" by (auto simp: in_set_conv_decomp)
  then have "concat (map g xs) = concat (map g ys) @ g x @ concat (map g zs)" by simp
  then show ?thesis by blast
qed

subsection \<open>A failed synthesis is logged\<close>

lemma type_text_synth_logs_failure:
  assumes "type_text_loop L str 0 c [] = Inr ((ime1, w1), kcs)"
    and "generate_keymap L ime1 w1 = (None, w2)"
  shows "type_text_synth L str c = Inr (ime1, errorf FailedGenerateKeymap w2)"
  using assms by (simp add: type_text_synth_def)

lemma perform_action_logs_failure:
  assumes "map_of actions act = Some key"
    and "try_type_keysym L (snd key) w = Inr (False, w0)"
    and "generate_keymap L ime w = (None, w2)"
  shows "perform_action L act (ime, w) = Inr (ime, errorf FailedGenerateKeymap w2)"
proof -
  from assms(2) have "w0 = w" by (rule try_type_keysym_false)
  with assms show ?thesis by (simp add: perform_action_def)
qed

subsection \<open>Decimal digits\<close>

text \<open>\<open>dec\<close> prints a number in decimal: its output is digits only, and reads back as the number.\<close>

lemma digit_value: "k < 10 \<Longrightarrow> of_char (char_of (48 + k :: nat)) = (48 + k :: nat)"
  by (simp add: of_char_of)

lemma dec_value: "foldl (\<lambda>a c. 10 * a + (of_char c - 48)) 0 (dec n) = n"
proof (induction n rule: dec.induct)
  case (1 n)
  show ?case
  proof (cases "n < 10")
    case True
    have "dec n = [char_of (48 + n)]"
      using True by (subst dec.simps) simp
    with True show ?thesis by (simp add: digit_value)
  next
    case False
    have m: "n mod 10 < 10" by simp
    have e: "dec n = dec (n div 10) @ [char_of (48 + n mod 10)]"
      using False by (subst dec.simps) simp
    have "foldl (\<lambda>a c. 10 * a + (of_char c - 48)) 0 (dec n)
        = 10 * (n div 10) + (of_char (char_of (48 + n mod 10) :: char) - 48)"
      using "1.IH" [OF False] by (simp only: e foldl_append foldl.simps)
    also have "\<dots> = 10 * (n div 10) + n mod 10"
      by (simp only: digit_value [OF m] add_diff_cancel_left')
    finally show ?thesis by simp
  qed
qed

lemma digit_char_all: "\<forall>k \<in> set [0 ..< 10 :: nat]. char_of (48 + k) \<in> set ''0123456789''"
  by code_simp

lemma digit_char: "k < 10 \<Longrightarrow> char_of (48 + k :: nat) \<in> set ''0123456789''"
proof -
  assume "k < 10"
  then have "k \<in> set [0 ..< 10]" by (simp only: set_upt atLeastLessThan_iff) simp
  with digit_char_all show ?thesis by (rule bspec)
qed


lemma dec_chars:
  assumes "\<And>k. k < 10 \<Longrightarrow> char_of (48 + k :: nat) \<in> D"
  shows "set (dec n) \<subseteq> D"
proof (induction n rule: dec.induct)
  case (1 n)
  show ?case
  proof (cases "n < 10")
    case True
    have "dec n = [char_of (48 + n)]"
      using True by (subst dec.simps) simp
    then have "set (dec n) = {char_of (48 + n)}" by (simp only: list.set)
    with assms [OF True] show ?thesis by (simp only: insert_subset empty_subsetI simp_thms)
  next
    case False
    have m: "n mod 10 < 10" by simp
    have e: "dec n = dec (n div 10) @ [char_of (48 + n mod 10)]"
      using False by (subst dec.simps) simp
    have "set (dec n) = set (dec (n div 10)) \<union> {char_of (48 + n mod 10)}"
      by (simp only: e set_append list.set)
    with assms [OF m] "1.IH" [OF False] show ?thesis
      by (simp only: Un_subset_iff insert_subset empty_subsetI simp_thms)
  qed
qed

lemma dec_digits: "set (dec n) \<subseteq> set ''0123456789''"
  by (rule dec_chars) (rule digit_char)

subsection \<open>When the synthesis fails, and what the operations do then\<close>

lemma symbols_loop_ok:
  "fst (symbols_loop L kks fw) \<longleftrightarrow> (\<forall>kk \<in> set kks. 0 < fst (xkb_keysym_get_name L (snd kk)))"
proof (induction kks arbitrary: fw)
  case Nil
  show ?case by simp
next
  case (Cons kk kks)
  show ?case
  proof (cases "fst (xkb_keysym_get_name L (snd kk)) \<le> 0")
    case True
    then show ?thesis by (auto simp: generate_keymap_key_def Let_def)
  next
    case False
    then show ?thesis
      using Cons.IH by (simp add: generate_keymap_key_def Let_def)
  qed
qed

lemma keymap_description_None:
  "fst (keymap_description L ime w) = None \<longleftrightarrow>
   (\<exists>kk \<in> set (keys ime @ map snd (actions_iteration L)). fst (xkb_keysym_get_name L (snd kk)) \<le> 0)"
proof -
  let ?f3 = "keycodes_loop (map snd (actions_iteration L)) (keycodes_loop (keys ime) keymap_header) @ keymap_middle"
  obtain ok f4 w4 where a: "symbols_loop L (keys ime) (?f3, w) = (ok, f4, w4)"
    by (cases "symbols_loop L (keys ime) (?f3, w)")
  obtain ok' f5 w5 where b: "symbols_loop L (map snd (actions_iteration L)) (f4, w4) = (ok', f5, w5)"
    by (cases "symbols_loop L (map snd (actions_iteration L)) (f4, w4)")
  have 1: "ok \<longleftrightarrow> (\<forall>kk \<in> set (keys ime). 0 < fst (xkb_keysym_get_name L (snd kk)))"
    using symbols_loop_ok [of L "keys ime" "(?f3, w)"] a by simp
  have 2: "ok' \<longleftrightarrow> (\<forall>kk \<in> set (map snd (actions_iteration L)). 0 < fst (xkb_keysym_get_name L (snd kk)))"
    using symbols_loop_ok [of L "map snd (actions_iteration L)" "(f4, w4)"] b by simp
  have 3: "fst (keymap_description L ime w) = None \<longleftrightarrow> \<not> ok \<or> \<not> ok'"
    using a b by (simp add: keymap_description_def Let_def)
  show ?thesis
    unfolding 3 1 2 by (force simp: not_less)
qed

lemma generate_keymap_None:
  "fst (generate_keymap L ime w) = None \<longleftrightarrow>
     (\<exists>kk \<in> set (keys ime @ map snd (actions_iteration L)). fst (xkb_keysym_get_name L (snd kk)) \<le> 0)
     \<or> (\<exists>txt. fst (keymap_description L ime w) = Some txt \<and> xkb_keymap_new_from_buffer L txt = None)"
proof -
  obtain t w' where d: "keymap_description L ime w = (t, w')"
    by (cases "keymap_description L ime w")
  show ?thesis
  proof (cases t)
    case None
    with d keymap_description_None [of L ime w] show ?thesis
      by (simp add: generate_keymap_def)
  next
    case (Some t')
    with d keymap_description_None [of L ime w] show ?thesis
      by (simp add: generate_keymap_def)
  qed
qed

lemma type_text_reaches_synth:
  assumes "type_text_loop L str 0 (ime, w) [] = Inr (c', kcs)"
    and "utf8_size str 0 = Inr 1 \<and> rd str 1 = Inr 0 \<and> keys ime = []
         \<and> keysym_from_ch L (ucast (str ! 0)) \<noteq> XKB_KEY_NoSymbol
         \<longrightarrow> try_type_keysym L (keysym_from_ch L (ucast (str ! 0))) w = Inr (False, w)"
  shows "type_text L str (ime, w) = type_text_synth L str (ime, w)"
proof -
  from type_text_loop_rd [OF assms(1)] obtain sz where sz: "utf8_size str 0 = Inr sz"
    by (auto simp: utf8_size_def)
  show ?thesis
  proof (cases "sz = 1")
    case False
    with sz show ?thesis by (simp add: type_text_def Let_def)
  next
    case True
    with sz have one: "utf8_size str 0 = Inr 1" by simp
    from one_byte_text_loop [OF one assms(1)] obtain b1 where b1: "rd str 1 = Inr b1"
      by auto
    from one b1 assms(2) show ?thesis
      by (auto simp: type_text_def Let_def)
  qed
qed

lemma logs_more_errorf_failed:
  assumes "logs_more w w2"
  shows "\<exists>ds. FailedGenerateKeymap \<notin> set ds
           \<and> errorf FailedGenerateKeymap w2 = w\<lparr>ime_log := ime_log w @ ds @ [FailedGenerateKeymap]\<rparr>"
proof -
  from assms obtain ds where "FailedGenerateKeymap \<notin> set ds" "w2 = w\<lparr>ime_log := ime_log w @ ds\<rparr>"
    unfolding logs_more_def by blast
  then have "FailedGenerateKeymap \<notin> set ds
           \<and> errorf FailedGenerateKeymap w2 = w\<lparr>ime_log := ime_log w @ ds @ [FailedGenerateKeymap]\<rparr>"
    by (simp add: errorf_def)
  then show ?thesis ..
qed

lemma type_text_abandons:
  assumes "type_text_loop L str 0 (ime, w) [] = Inr ((ime1, w1), kcs)"
    and "fst (generate_keymap L ime1 w1) = None"
    and "utf8_size str 0 = Inr 1 \<and> rd str 1 = Inr 0 \<and> keys ime = []
         \<and> keysym_from_ch L (ucast (str ! 0)) \<noteq> XKB_KEY_NoSymbol
         \<longrightarrow> try_type_keysym L (keysym_from_ch L (ucast (str ! 0))) w = Inr (False, w)"
  shows "(\<exists>ds. FailedGenerateKeymap \<notin> set ds
            \<and> type_text L str (ime, w) =
                Inr (ime1, w\<lparr>ime_log := ime_log w @ ds @ [FailedGenerateKeymap]\<rparr>))
     \<and> keyboard_keymap ime1 = keyboard_keymap ime"
proof -
  obtain w2 where g: "generate_keymap L ime1 w1 = (None, w2)"
    using assms(2) by (cases "generate_keymap L ime1 w1") auto
  have t: "type_text L str (ime, w) = Inr (ime1, errorf FailedGenerateKeymap w2)"
    using type_text_reaches_synth [OF assms(1) assms(3)]
      type_text_synth_logs_failure [OF assms(1) g] by simp
  have "logs_more w w1"
    using type_text_loop_logs [OF assms(1)] by simp
  moreover have "logs_more w1 w2"
    using generate_keymap_logs [of w1 L ime1] g by simp
  ultimately have "logs_more w w2" by (rule logs_more_trans)
  from logs_more_errorf_failed [OF this] t
  have "\<exists>ds. FailedGenerateKeymap \<notin> set ds
            \<and> type_text L str (ime, w) =
                Inr (ime1, w\<lparr>ime_log := ime_log w @ ds @ [FailedGenerateKeymap]\<rparr>)"
    by auto
  moreover have "keyboard_keymap ime1 = keyboard_keymap ime"
    using type_text_loop_device [OF assms(1)] by simp
  ultimately show ?thesis ..
qed

lemma perform_action_abandons:
  assumes "map_of actions act = Some key"
    and "try_type_keysym L (snd key) w = Inr (False, w)"
    and "fst (generate_keymap L ime w) = None"
  shows "\<exists>ds. FailedGenerateKeymap \<notin> set ds
            \<and> perform_action L act (ime, w) =
                Inr (ime, w\<lparr>ime_log := ime_log w @ ds @ [FailedGenerateKeymap]\<rparr>)"
proof -
  obtain w2 where g: "generate_keymap L ime w = (None, w2)"
    using assms(3) by (cases "generate_keymap L ime w") auto
  have t: "perform_action L act (ime, w) = Inr (ime, errorf FailedGenerateKeymap w2)"
    using assms(1,2) g by (rule perform_action_logs_failure)
  have "logs_more w w2"
    using generate_keymap_logs [of w L ime] g by simp
  from logs_more_errorf_failed [OF this] t show ?thesis by auto
qed

subsection \<open>Lines of the keymap text\<close>

lemma sublist_concat_map:
  assumes "x \<in> set xs"
  shows "sublist (g x) (p @ concat (map g xs) @ q)"
proof -
  from concat_map_has [OF assms, of g] obtain a b where "concat (map g xs) = a @ g x @ b"
    by blast
  then have "p @ concat (map g xs) @ q = (p @ a) @ g x @ (b @ q)" by simp
  then show ?thesis unfolding sublist_def by blast
qed

lemma iterates_actions_key:
  assumes "iterates_actions L" and "map_of actions act = Some kk"
  shows "kk \<in> set (map snd (actions_iteration L))"
proof -
  from assms(2) have "(act, kk) \<in> set actions" by (rule map_of_SomeD)
  with assms(1) have "(act, kk) \<in> set (actions_iteration L)" by (simp add: iterates_actions_def)
  then show ?thesis by (auto intro: rev_image_eqI)
qed

lemma iterates_actions_length:
  assumes "iterates_actions L"
  shows "length (actions_iteration L) = 5"
proof -
  have d: "distinct actions" by (simp add: actions_def)
  from assms have "length (actions_iteration L) = card (set actions)"
    by (simp add: iterates_actions_def distinct_card [symmetric])
  also have "\<dots> = length actions" using d by (rule distinct_card)
  finally show ?thesis by (simp add: actions_def)
qed

lemma generate_keymap_Some:
  assumes "fst (generate_keymap L ime w) = Some km"
  shows "generate_keymap L ime w = (Some km, w)"
proof -
  obtain t w' where d: "keymap_description L ime w = (t, w')"
    by (cases "keymap_description L ime w")
  show ?thesis
  proof (cases t)
    case None
    with d assms show ?thesis by (simp add: generate_keymap_def)
  next
    case (Some desc)
    with d keymap_description_Some [of L ime w desc w'] have "w' = w" by simp
    with d Some assms show ?thesis by (simp add: generate_keymap_def)
  qed
qed

section \<open>Properties\<close>

subsection \<open>Commit with a stale serial\<close>

text \<open>
  C1. A commit whose serial differs from the serial of the session returns at once: the
  handler gives back the world it was given. The pending text and action of the session,
  the keyboard of the seat, the calls made into the seat, the installed keymap and the
  timers are all parts of that world, so none of them changed.
\<close>

theorem commit_stale_serial_noop:
  assumes "user_data w r = Some ime" and "ser \<noteq> serial ime"
  shows "ime_handle_commit L r ser w = Inr w"
  using assms by (simp add: ime_handle_commit_def)

theorem commit_stale_serial_noop_witness:
  "user_data pending_world 7 = Some pending_ime \<and> (2 :: u32) \<noteq> serial pending_ime
   \<and> ime_handle_commit demo_xkb 7 2 pending_world = Inr pending_world"
proof -
  have a: "user_data pending_world 7 = Some pending_ime"
    by (simp add: pending_world_def)
  have b: "(2 :: u32) \<noteq> serial pending_ime"
    by (simp add: pending_ime_def demo_ime_def)
  from commit_stale_serial_noop [OF a b] a b show ?thesis
    by simp
qed

subsection \<open>Commit and the pending text and action\<close>

text \<open>
  C2, as stated, has the pending text and action cleared whatever the serial is. A commit
  with the serial 2 on a session whose serial is 1 leaves the pending text \<^verbatim>\<open>a\<close> and
  the pending action submit where they are.
\<close>

theorem commit_stale_keeps_pending:
  "ime_handle_commit demo_xkb 7 2 pending_world = Inr pending_world
   \<and> user_data pending_world 7 = Some pending_ime
   \<and> serial pending_ime = 1
   \<and> pending_string pending_ime = Some [0x61, 0]
   \<and> pending_action pending_ime = ACTION_SUBMIT"
  by (simp add: ime_handle_commit_def pending_world_def pending_ime_def demo_world_def demo_ime_def)

text \<open>
  C2, amended: after a commit with the serial of the session has been processed, the
  pending text and the pending action of the session are cleared. (With any other serial
  they are untouched, which is C1.)
\<close>

theorem commit_matching_clears_pending:
  assumes "user_data w r = Some ime" and "ime_handle_commit L r (serial ime) w = Inr w'"
  shows "\<exists>ime'. user_data w' r = Some ime' \<and> pending_string ime' = None
           \<and> pending_action ime' = ACTION_NONE"
  using assms
  by (auto simp: ime_handle_commit_def wl_event_source_timer_update_def split: sum.splits)

theorem commit_matching_clears_pending_witness:
  "user_data pending_world 7 = Some pending_ime
   \<and> ime_handle_commit demo_xkb 7 (serial pending_ime) pending_world
       = Inr (projr (ime_handle_commit demo_xkb 7 (serial pending_ime) pending_world))
   \<and> (\<exists>ime'. user_data (projr (ime_handle_commit demo_xkb 7 (serial pending_ime) pending_world)) 7
                = Some ime'
            \<and> pending_string ime' = None \<and> pending_action ime' = ACTION_NONE)"
proof -
  have h1: "user_data pending_world 7 = Some pending_ime"
    by (simp add: pending_world_def)
  have "\<not> isl (ime_handle_commit demo_xkb 7 (serial pending_ime) pending_world)"
    by code_simp
  then have h2: "ime_handle_commit demo_xkb 7 (serial pending_ime) pending_world
       = Inr (projr (ime_handle_commit demo_xkb 7 (serial pending_ime) pending_world))"
    by (cases "ime_handle_commit demo_xkb 7 (serial pending_ime) pending_world") simp_all
  from commit_matching_clears_pending [OF h1 h2] h1 h2 show ?thesis
    by blast
qed

subsection \<open>Decoding at an invalid or truncated unit\<close>

text \<open>
  Where the byte under the pointer is the terminator or matches none of the four leading
  patterns, \<^verbatim>\<open>utf8_decode\<close> reads that byte only, gives U+FFFD and advances by one.
\<close>

lemma utf8_decode_invalid_lead:
  assumes "pos < length buf"
    and "buf ! pos = 0 \<or>
         (buf ! pos AND 0x80 \<noteq> 0 \<and> buf ! pos AND 0xE0 \<noteq> 0xC0
          \<and> buf ! pos AND 0xF0 \<noteq> 0xE0 \<and> buf ! pos AND 0xF8 \<noteq> 0xF0)"
  shows "utf8_decode buf pos = Inr (UTF8_INVALID, pos + 1)"
  using assms by (auto simp: utf8_decode_def utf8_size_def rd_def)

text \<open>
  C4. A multi-byte unit that the terminator cuts short is not handled that way. The
  string of the one byte \<^verbatim>\<open>0xE2\<close>, the leading byte of a three-byte unit, is two bytes
  long with its terminator; \<^verbatim>\<open>utf8_decode\<close> reads the index 2, one past the
  terminator. On the string of the one byte \<^verbatim>\<open>0xC3\<close> it takes the terminator for a
  continuation byte, gives U+00C0 instead of U+FFFD, and advances by two, which leaves
  the pointer past the terminator; a commit of that text, set by the client as pending
  text, makes the loop of \<^verbatim>\<open>type_text\<close> read there.
\<close>

theorem utf8_decode_truncated_unit:
  "c_string [0xE2, 0] \<and> utf8_decode [0xE2, 0] 0 = Inl OutOfBounds
   \<and> c_string [0xC3, 0] \<and> utf8_decode [0xC3, 0] 0 = Inr (0xC0, 2)
   \<and> strdup [0xC3] = [0xC3, 0]
   \<and> isl (ime_handle_commit demo_xkb 7 1 truncated_world)
   \<and> projl (ime_handle_commit demo_xkb 7 1 truncated_world) = OutOfBounds"
proof -
  have "isl (ime_handle_commit demo_xkb 7 1 truncated_world)"
    by code_simp
  moreover have "projl (ime_handle_commit demo_xkb 7 1 truncated_world) = OutOfBounds"
    by code_simp
  ultimately show ?thesis
    by (simp add: c_string_def utf8_decode_def utf8_size_def rd_def masks_def
        utf8_decode_loop.simps strdup_def)
qed

subsection \<open>The bound of the allocator queue\<close>

text \<open>
  C5, as stated, gives the catalog 48 key codes. The catalog has 47: the session that holds
  47 entries is at capacity, and allocating one more symbol evicts its front entry, so the
  queue never reaches 48 entries.
\<close>

theorem allocator_capacity_counterexample:
  "allow_keycodes_len \<noteq> 48 \<and> length (keys full_ime) = 47
   \<and> keys (fst (snd (keycode_from_ch demo_xkb 0x61 (full_ime, demo_world)))) =
       tl (keys full_ime) @ [(KEY_1, 0x61)]"
  by code_simp

text \<open>
  C5, amended: the catalog has 47 key codes. From a queue of at most 47 entries, every
  sequence of allocation requests leaves a queue of at most 47 entries. A request for a
  symbol that has a key symbol other than the one of the last entry, made when the queue
  holds 47 entries, removes the front entry, appends the new pair at the back with the
  key code that the cursor selects from the catalog, and logs that the key codes wrapped.
\<close>

theorem allocator_queue_bounded:
  assumes "length (keys (fst c)) \<le> allow_keycodes_len"
  shows "allow_keycodes_len = 47
     \<and> length (keys (fst (fold (\<lambda>ch d. snd (keycode_from_ch L ch d)) chs c))) \<le> allow_keycodes_len
     \<and> (keysym_from_ch L ch \<noteq> XKB_KEY_NoSymbol
          \<and> (keys (fst c) = [] \<or> snd (last (keys (fst c))) \<noteq> keysym_from_ch L ch)
          \<and> length (keys (fst c)) = allow_keycodes_len
        \<longrightarrow> keys (fst (snd (keycode_from_ch L ch c))) =
              tl (keys (fst c)) @ [(fst (keycode_from_ch L ch c), keysym_from_ch L ch)]
            \<and> fst (keycode_from_ch L ch c) =
                allow_keycodes ! (unat (next_keycode_index (fst c)) mod allow_keycodes_len)
            \<and> ime_log (snd (snd (keycode_from_ch L ch c))) = ime_log (snd c) @ [KeyCodesWrapped])"
proof (intro conjI impI)
  show "allow_keycodes_len = 47" by (rule allow_keycodes_len_47)
  show "length (keys (fst (fold (\<lambda>ch d. snd (keycode_from_ch L ch d)) chs c))) \<le> allow_keycodes_len"
    using assms by (rule fold_keycode_from_ch_length)
next
  assume h: "keysym_from_ch L ch \<noteq> XKB_KEY_NoSymbol
          \<and> (keys (fst c) = [] \<or> snd (last (keys (fst c))) \<noteq> keysym_from_ch L ch)
          \<and> length (keys (fst c)) = allow_keycodes_len"
  then have e: "keycode_from_ch L ch c =
           (allow_keycodes ! (unat (next_keycode_index (fst c)) mod allow_keycodes_len),
            (fst c)\<lparr>keys := tl (keys (fst c)) @
                        [(allow_keycodes ! (unat (next_keycode_index (fst c)) mod allow_keycodes_len),
                          keysym_from_ch L ch)],
                     next_keycode_index := next_keycode_index (fst c) + 1\<rparr>,
            errorf KeyCodesWrapped (snd c))"
    by (intro keycode_from_ch_evicts) simp_all
  show "keys (fst (snd (keycode_from_ch L ch c))) =
              tl (keys (fst c)) @ [(fst (keycode_from_ch L ch c), keysym_from_ch L ch)]"
    by (simp add: e)
  show "fst (keycode_from_ch L ch c) =
                allow_keycodes ! (unat (next_keycode_index (fst c)) mod allow_keycodes_len)"
    by (simp add: e)
  show "ime_log (snd (snd (keycode_from_ch L ch c))) = ime_log (snd c) @ [KeyCodesWrapped]"
    by (simp add: e errorf_def)
qed

theorem allocator_queue_bounded_witness:
  "length (keys (fst (full_ime, demo_world))) \<le> allow_keycodes_len
   \<and> keysym_from_ch demo_xkb 0x61 \<noteq> XKB_KEY_NoSymbol
   \<and> snd (last (keys full_ime)) \<noteq> keysym_from_ch demo_xkb 0x61
   \<and> length (keys full_ime) = allow_keycodes_len
   \<and> length (keys (fst (fold (\<lambda>ch d. snd (keycode_from_ch demo_xkb ch d)) [0x61, 0x61, 0x62]
                           (full_ime, demo_world)))) \<le> allow_keycodes_len
   \<and> keys (fst (snd (keycode_from_ch demo_xkb 0x61 (full_ime, demo_world)))) =
       tl (keys full_ime) @
         [(fst (keycode_from_ch demo_xkb 0x61 (full_ime, demo_world)), keysym_from_ch demo_xkb 0x61)]"
proof -
  have h1: "length (keys (fst (full_ime, demo_world))) \<le> allow_keycodes_len"
    by code_simp
  have h2: "keysym_from_ch demo_xkb 0x61 \<noteq> XKB_KEY_NoSymbol"
    by code_simp
  have h3: "snd (last (keys full_ime)) \<noteq> keysym_from_ch demo_xkb 0x61"
    by code_simp
  have h4: "length (keys full_ime) = allow_keycodes_len"
    by code_simp
  from allocator_queue_bounded [OF h1, of demo_xkb "[0x61, 0x61, 0x62]" "0x61"] h1 h2 h3 h4
  show ?thesis by simp
qed

subsection \<open>One session, and a second create\<close>

text \<open>
  C9. Starting from a world in which the sessions are exactly the registered one, after
  any sequence of requests at most one session exists. In every world with a registered
  session, a create request changes nothing but the list of events sent to clients, which
  gets \<^verbatim>\<open>unavailable\<close> for the new resource: the sessions, the registry, the seat, the
  log and the timers are the same.
\<close>

theorem single_session_second_create:
  assumes "single_session w0" and "run L qs w0 = Inr w"
  shows "card (dom (user_data w)) \<le> 1
     \<and> (active_input_method w \<noteq> None \<longrightarrow>
          manager_handle_create_input_method r w = w\<lparr>sent := sent w @ [(r, Unavailable)]\<rparr>)"
proof
  from assms have "single_session w" by (rule run_single_session)
  then show "card (dom (user_data w)) \<le> 1" by (rule single_session_card)
  show "active_input_method w \<noteq> None \<longrightarrow>
          manager_handle_create_input_method r w = w\<lparr>sent := sent w @ [(r, Unavailable)]\<rparr>"
    by (simp add: manager_handle_create_input_method_def)
qed

theorem single_session_second_create_witness:
  "single_session idle_world
   \<and> run demo_xkb [CreateInputMethod 7, SetString 7 [0x61, 0], CreateInputMethod 8] idle_world
       = Inr busy_world
   \<and> active_input_method busy_world \<noteq> None
   \<and> card (dom (user_data busy_world)) \<le> 1
   \<and> manager_handle_create_input_method 9 busy_world
       = busy_world\<lparr>sent := sent busy_world @ [(9, Unavailable)]\<rparr>"
proof -
  have h1: "single_session idle_world"
    by (simp add: single_session_def idle_world_def)
  have h2: "run demo_xkb [CreateInputMethod 7, SetString 7 [0x61, 0], CreateInputMethod 8] idle_world
       = Inr busy_world"
    by (simp add: busy_world_def idle_world_def demo_world_def demo_ime_def
        manager_handle_create_input_method_def ime_handle_set_string_def strdup_def)
  have h3: "active_input_method busy_world \<noteq> None"
    by (simp add: busy_world_def)
  from single_session_second_create [OF h1 h2, of 9] h1 h2 h3 show ?thesis
    by simp
qed

subsection \<open>The events of a direct match\<close>

text \<open>
  C7. When \<^verbatim>\<open>try_type_keysym\<close> accepts a match, it is a key code \<open>kc\<close> of at least 8
  with a level that carries the symbol alone under a mask \<open>msk\<close> of shift, control and
  alt only, and the calls into the seat are, in this order: the switch of the seat to the
  virtual keyboard and the notification of the mask; the presses of the modifier keys
  that the mask asks for, in the order shift, control, alt; the press and the release of
  the key \<open>kc - 8\<close>; the releases of the same modifier keys in the reverse order; the
  notification of the modifiers that the keyboard of the seat had before the call (all
  zero when the seat had no keyboard).
\<close>

theorem direct_type_event_sequence:
  assumes "try_type_keysym L ks w = Inr (True, w')"
  shows "\<exists>kc msk ly lv.
           level_mask L (virtual_keymap w) ks kc ly lv = Some msk
           \<and> msk AND (WLR_MODIFIER_SHIFT OR WLR_MODIFIER_CTRL OR WLR_MODIFIER_ALT) = msk
           \<and> 8 \<le> kc
           \<and> seat_calls w' = seat_calls w @
               [SetKeyboard VirtualKeyboard, NotifyModifiers (no_modifiers\<lparr>depressed := msk\<rparr>)]
               @ map (\<lambda>k. NotifyKey k PRESSED) (modifier_keys msk)
               @ [NotifyKey (of_nat (kc - 8)) PRESSED, NotifyKey (of_nat (kc - 8)) RELEASED]
               @ map (\<lambda>k. NotifyKey k RELEASED) (rev (modifier_keys msk))
               @ [NotifyModifiers
                    (case seat_keyboard w of None \<Rightarrow> no_modifiers | Some d \<Rightarrow> kbd_modifiers w d)]"
proof -
  from try_type_keysym_true [OF assms] obtain kc msk where
    k: "keycode_loop L (virtual_keymap w) ks (xkb_keymap_max_keycode L (virtual_keymap w))
             (xkb_keymap_min_keycode L (virtual_keymap w)) = Some (kc, msk)"
    and g: "8 \<le> kc"
    and w': "w' = w\<lparr>seat_keyboard := Some VirtualKeyboard,
                     seat_calls := seat_calls w @ direct_calls w kc msk\<rparr>"
    by blast
  from keycode_loop_Some [OF k] obtain ly lv where
    m: "level_mask L (virtual_keymap w) ks kc ly lv = Some msk"
    by blast
  from level_mask_allowed [OF m]
  have a: "msk AND (WLR_MODIFIER_SHIFT OR WLR_MODIFIER_CTRL OR WLR_MODIFIER_ALT) = msk" ..
  have "seat_calls w' = seat_calls w @
               [SetKeyboard VirtualKeyboard, NotifyModifiers (no_modifiers\<lparr>depressed := msk\<rparr>)]
               @ map (\<lambda>k. NotifyKey k PRESSED) (modifier_keys msk)
               @ [NotifyKey (of_nat (kc - 8)) PRESSED, NotifyKey (of_nat (kc - 8)) RELEASED]
               @ map (\<lambda>k. NotifyKey k RELEASED) (rev (modifier_keys msk))
               @ [NotifyModifiers
                    (case seat_keyboard w of None \<Rightarrow> no_modifiers | Some d \<Rightarrow> kbd_modifiers w d)]"
    by (simp add: w' direct_calls_def)
  with m a g show ?thesis by blast
qed

theorem direct_type_event_sequence_witness:
  "try_type_keysym demo_xkb 0x41 demo_world
     = Inr (True, snd (projr (try_type_keysym demo_xkb 0x41 demo_world)))
   \<and> seat_calls (snd (projr (try_type_keysym demo_xkb 0x41 demo_world))) =
       [SetKeyboard VirtualKeyboard, NotifyModifiers (no_modifiers\<lparr>depressed := 1\<rparr>),
        NotifyKey KEY_LEFTSHIFT PRESSED, NotifyKey KEY_1 PRESSED, NotifyKey KEY_1 RELEASED,
        NotifyKey KEY_LEFTSHIFT RELEASED, NotifyModifiers no_modifiers]
   \<and> (\<exists>kc msk ly lv.
           level_mask demo_xkb (virtual_keymap demo_world) 0x41 kc ly lv = Some msk
           \<and> msk AND (WLR_MODIFIER_SHIFT OR WLR_MODIFIER_CTRL OR WLR_MODIFIER_ALT) = msk
           \<and> 8 \<le> kc
           \<and> seat_calls (snd (projr (try_type_keysym demo_xkb 0x41 demo_world))) =
               seat_calls demo_world @
               [SetKeyboard VirtualKeyboard, NotifyModifiers (no_modifiers\<lparr>depressed := msk\<rparr>)]
               @ map (\<lambda>k. NotifyKey k PRESSED) (modifier_keys msk)
               @ [NotifyKey (of_nat (kc - 8)) PRESSED, NotifyKey (of_nat (kc - 8)) RELEASED]
               @ map (\<lambda>k. NotifyKey k RELEASED) (rev (modifier_keys msk))
               @ [NotifyModifiers
                    (case seat_keyboard demo_world of None \<Rightarrow> no_modifiers
                     | Some d \<Rightarrow> kbd_modifiers demo_world d)])"
proof -
  have a: "\<not> isl (try_type_keysym demo_xkb 0x41 demo_world)"
    by code_simp
  have b: "fst (projr (try_type_keysym demo_xkb 0x41 demo_world))"
    by code_simp
  have h: "try_type_keysym demo_xkb 0x41 demo_world
     = Inr (True, snd (projr (try_type_keysym demo_xkb 0x41 demo_world)))"
    using a b by (cases "try_type_keysym demo_xkb 0x41 demo_world") auto
  have c: "seat_calls (snd (projr (try_type_keysym demo_xkb 0x41 demo_world))) =
       [SetKeyboard VirtualKeyboard, NotifyModifiers (no_modifiers\<lparr>depressed := 1\<rparr>),
        NotifyKey KEY_LEFTSHIFT PRESSED, NotifyKey KEY_1 PRESSED, NotifyKey KEY_1 RELEASED,
        NotifyKey KEY_LEFTSHIFT RELEASED, NotifyModifiers no_modifiers]"
    by code_simp
  from direct_type_event_sequence [OF h] h c show ?thesis
    by blast
qed

subsection \<open>Direct typing comes first for a text of one byte\<close>

text \<open>
  C3, as stated, covers every text that decodes to one scalar value. The text \<^verbatim>\<open>C3 A9\<close>
  decodes to the one value U+00E9, the queue is empty, and the virtual keymap has a key
  that types its symbol directly; \<^verbatim>\<open>type_text\<close> does not try it: it allocates the key
  code \<^verbatim>\<open>KEY_1\<close>, installs a synthesised keymap and switches the seat to the keyboard of
  the session. The test under which the code tries the direct way is
  \<^verbatim>\<open>utf8_size(text) == 1 && text[1] == '\0'\<close>: a text of exactly one byte.
\<close>

theorem type_text_two_byte_char_not_direct:
  "utf8_decode [0xC3, 0xA9, 0] 0 = Inr (0xE9, 2) \<and> rd [0xC3, 0xA9, 0] 2 = Inr 0
   \<and> keys demo_ime = []
   \<and> \<not> isl (try_type_keysym demo_xkb (keysym_from_ch demo_xkb 0xE9) demo_world)
   \<and> fst (projr (try_type_keysym demo_xkb (keysym_from_ch demo_xkb 0xE9) demo_world))
   \<and> \<not> isl (type_text demo_xkb [0xC3, 0xA9, 0] (demo_ime, demo_world))
   \<and> keys (fst (projr (type_text demo_xkb [0xC3, 0xA9, 0] (demo_ime, demo_world)))) = [(KEY_1, 0xE9)]
   \<and> seat_calls (snd (projr (type_text demo_xkb [0xC3, 0xA9, 0] (demo_ime, demo_world)))) =
       [SetKeymap (ImeKeyboard 7) 1, SetKeyboard (ImeKeyboard 7),
        NotifyKey KEY_1 PRESSED, NotifyKey KEY_1 RELEASED]"
  by code_simp

text \<open>
  C3, amended: for a text of exactly one byte (one unit of size 1, then the terminator)
  whose byte has a key symbol, with an empty queue, \<^verbatim>\<open>type_text\<close> tries the direct way
  first, and when that succeeds it returns what the direct way did: the session is as it
  was (nothing allocated, no keymap installed), and the world differs only by the calls
  of the direct match and the keyboard of the seat. For every text whose first unit is
  not of size 1, whatever the queue and the keymap are, \<^verbatim>\<open>type_text\<close> makes no direct
  attempt: it is its second part, the allocation and the synthesis.
\<close>

theorem type_text_direct_first:
  "(utf8_size str 0 = Inr 1 \<and> rd str 1 = Inr 0 \<and> keys ime = []
      \<and> keysym_from_ch L (ucast (str ! 0)) \<noteq> XKB_KEY_NoSymbol
      \<and> try_type_keysym L (keysym_from_ch L (ucast (str ! 0))) w = Inr (True, w')
    \<longrightarrow> type_text L str (ime, w) = Inr (ime, w')
        \<and> (\<exists>kc msk. w' = w\<lparr>seat_keyboard := Some VirtualKeyboard,
                             seat_calls := seat_calls w @ direct_calls w kc msk\<rparr>))
   \<and> (utf8_size str 0 = Inr sz \<and> sz \<noteq> 1
    \<longrightarrow> type_text L str (ime, w) = type_text_synth L str (ime, w))"
proof (intro conjI impI)
  assume a: "utf8_size str 0 = Inr 1 \<and> rd str 1 = Inr 0 \<and> keys ime = []
      \<and> keysym_from_ch L (ucast (str ! 0)) \<noteq> XKB_KEY_NoSymbol
      \<and> try_type_keysym L (keysym_from_ch L (ucast (str ! 0))) w = Inr (True, w')"
  then show "type_text L str (ime, w) = Inr (ime, w')"
    by (simp add: type_text_def)
  from a have "try_type_keysym L (keysym_from_ch L (ucast (str ! 0))) w = Inr (True, w')"
    by simp
  from try_type_keysym_true [OF this]
  show "\<exists>kc msk. w' = w\<lparr>seat_keyboard := Some VirtualKeyboard,
                          seat_calls := seat_calls w @ direct_calls w kc msk\<rparr>"
    by blast
next
  assume "utf8_size str 0 = Inr sz \<and> sz \<noteq> 1"
  then show "type_text L str (ime, w) = type_text_synth L str (ime, w)"
    by (simp add: type_text_def Let_def)
qed

theorem type_text_direct_first_witness:
  "utf8_size [0x61, 0] 0 = Inr 1 \<and> rd [0x61, 0] 1 = Inr 0 \<and> keys demo_ime = []
   \<and> keysym_from_ch demo_xkb (ucast ([0x61, 0 :: u8] ! 0)) \<noteq> XKB_KEY_NoSymbol
   \<and> try_type_keysym demo_xkb (keysym_from_ch demo_xkb (ucast ([0x61, 0 :: u8] ! 0))) demo_world
       = Inr (True, snd (projr (try_type_keysym demo_xkb
                (keysym_from_ch demo_xkb (ucast ([0x61, 0 :: u8] ! 0))) demo_world)))
   \<and> type_text demo_xkb [0x61, 0] (demo_ime, demo_world)
       = Inr (demo_ime, snd (projr (try_type_keysym demo_xkb
                (keysym_from_ch demo_xkb (ucast ([0x61, 0 :: u8] ! 0))) demo_world)))
   \<and> utf8_size [0xC3, 0xA9, 0] 0 = Inr 2 \<and> (2 :: nat) \<noteq> 1
   \<and> type_text demo_xkb [0xC3, 0xA9, 0] (demo_ime, demo_world)
       = type_text_synth demo_xkb [0xC3, 0xA9, 0] (demo_ime, demo_world)"
proof -
  let ?t = "try_type_keysym demo_xkb (keysym_from_ch demo_xkb (ucast ([0x61, 0 :: u8] ! 0))) demo_world"
  have h1: "utf8_size [0x61, 0] 0 = Inr 1" by code_simp
  have h2: "rd [0x61, 0] 1 = Inr 0" by code_simp
  have h3: "keys demo_ime = []" by code_simp
  have h4: "keysym_from_ch demo_xkb (ucast ([0x61, 0 :: u8] ! 0)) \<noteq> XKB_KEY_NoSymbol" by code_simp
  have a: "\<not> isl ?t" by code_simp
  have b: "fst (projr ?t)" by code_simp
  have h5: "?t = Inr (True, snd (projr ?t))"
    using a b by (cases ?t) auto
  have h6: "utf8_size [0xC3, 0xA9, 0] 0 = Inr 2" by code_simp
  have h7: "(2 :: nat) \<noteq> 1" by simp
  from type_text_direct_first [of "[0x61, 0]" demo_ime demo_xkb demo_world "snd (projr ?t)"]
    h1 h2 h3 h4 h5
  have p1: "type_text demo_xkb [0x61, 0] (demo_ime, demo_world) = Inr (demo_ime, snd (projr ?t))"
    by blast
  from type_text_direct_first [of "[0xC3, 0xA9, 0]" demo_ime demo_xkb demo_world _ 2] h6 h7
  have p2: "type_text demo_xkb [0xC3, 0xA9, 0] (demo_ime, demo_world)
       = type_text_synth demo_xkb [0xC3, 0xA9, 0] (demo_ime, demo_world)"
    by blast
  from h1 h2 h3 h4 h5 h6 h7 p1 p2 show ?thesis by blast
qed

subsection \<open>A failed synthesis abandons the operation\<close>

text \<open>
  C8. \<^verbatim>\<open>generate_keymap\<close> returns the null pointer exactly when a symbol of the queue
  or of the action table has no name, or the compiler rejects the text. When it returns
  the null pointer for the session that the loop of \<^verbatim>\<open>type_text\<close> leaves (the direct
  attempt, where the text is one that gets one, having found no key), \<^verbatim>\<open>type_text\<close>
  returns, and the world it returns is the world from before with lines added to the log,
  the last of them the failure of the synthesis: no call was made into the seat, the
  keyboard of the seat is the same, no timer was armed, and the keymap of the session's
  keyboard is the one from before. When it returns the null pointer in
  \<^verbatim>\<open>perform_action\<close>, after a direct attempt that found no key, \<^verbatim>\<open>perform_action\<close>
  returns the session as it was and the world from before with the same lines added to
  the log.
\<close>

theorem synthesis_failure_abandons:
  "(fst (generate_keymap L ime0 w0) = None \<longleftrightarrow>
      (\<exists>kk \<in> set (keys ime0 @ map snd (actions_iteration L)).
          fst (xkb_keysym_get_name L (snd kk)) \<le> 0)
      \<or> (\<exists>desc. fst (keymap_description L ime0 w0) = Some desc
            \<and> xkb_keymap_new_from_buffer L desc = None))
   \<and> (type_text_loop L str 0 (ime, w) [] = Inr ((ime1, w1), kcs)
      \<and> fst (generate_keymap L ime1 w1) = None
      \<and> (utf8_size str 0 = Inr 1 \<and> rd str 1 = Inr 0 \<and> keys ime = []
           \<and> keysym_from_ch L (ucast (str ! 0)) \<noteq> XKB_KEY_NoSymbol
         \<longrightarrow> try_type_keysym L (keysym_from_ch L (ucast (str ! 0))) w = Inr (False, w))
    \<longrightarrow> (\<exists>ds. FailedGenerateKeymap \<notin> set ds
            \<and> type_text L str (ime, w) =
                Inr (ime1, w\<lparr>ime_log := ime_log w @ ds @ [FailedGenerateKeymap]\<rparr>))
        \<and> keyboard_keymap ime1 = keyboard_keymap ime)
   \<and> (map_of actions act = Some key
      \<and> try_type_keysym L (snd key) w = Inr (False, w)
      \<and> fst (generate_keymap L ime w) = None
    \<longrightarrow> (\<exists>ds. FailedGenerateKeymap \<notin> set ds
            \<and> perform_action L act (ime, w) =
                Inr (ime, w\<lparr>ime_log := ime_log w @ ds @ [FailedGenerateKeymap]\<rparr>)))"
proof (intro conjI)
  show "fst (generate_keymap L ime0 w0) = None \<longleftrightarrow>
      (\<exists>kk \<in> set (keys ime0 @ map snd (actions_iteration L)).
          fst (xkb_keysym_get_name L (snd kk)) \<le> 0)
      \<or> (\<exists>desc. fst (keymap_description L ime0 w0) = Some desc
            \<and> xkb_keymap_new_from_buffer L desc = None)"
    by (rule generate_keymap_None)
  show "type_text_loop L str 0 (ime, w) [] = Inr ((ime1, w1), kcs)
      \<and> fst (generate_keymap L ime1 w1) = None
      \<and> (utf8_size str 0 = Inr 1 \<and> rd str 1 = Inr 0 \<and> keys ime = []
           \<and> keysym_from_ch L (ucast (str ! 0)) \<noteq> XKB_KEY_NoSymbol
         \<longrightarrow> try_type_keysym L (keysym_from_ch L (ucast (str ! 0))) w = Inr (False, w))
    \<longrightarrow> (\<exists>ds. FailedGenerateKeymap \<notin> set ds
            \<and> type_text L str (ime, w) =
                Inr (ime1, w\<lparr>ime_log := ime_log w @ ds @ [FailedGenerateKeymap]\<rparr>))
        \<and> keyboard_keymap ime1 = keyboard_keymap ime"
    using type_text_abandons [of L str ime w ime1 w1 kcs] by blast
  show "map_of actions act = Some key
      \<and> try_type_keysym L (snd key) w = Inr (False, w)
      \<and> fst (generate_keymap L ime w) = None
    \<longrightarrow> (\<exists>ds. FailedGenerateKeymap \<notin> set ds
            \<and> perform_action L act (ime, w) =
                Inr (ime, w\<lparr>ime_log := ime_log w @ ds @ [FailedGenerateKeymap]\<rparr>))"
    using perform_action_abandons [of act key L w ime] by blast
qed

theorem synthesis_failure_abandons_witness:
  "type_text_loop rejecting_xkb [0x62, 0] 0 (demo_ime, demo_world) []
     = Inr ((demo_ime\<lparr>keys := [(KEY_1, 0x62)], next_keycode_index := 1\<rparr>, demo_world), [KEY_1])
   \<and> fst (generate_keymap rejecting_xkb
            (demo_ime\<lparr>keys := [(KEY_1, 0x62)], next_keycode_index := 1\<rparr>) demo_world) = None
   \<and> utf8_size [0x62, 0] 0 = Inr 1 \<and> rd [0x62, 0] 1 = Inr 0 \<and> keys demo_ime = []
   \<and> keysym_from_ch rejecting_xkb (ucast ([0x62, 0 :: u8] ! 0)) \<noteq> XKB_KEY_NoSymbol
   \<and> try_type_keysym rejecting_xkb (keysym_from_ch rejecting_xkb (ucast ([0x62, 0 :: u8] ! 0)))
        demo_world = Inr (False, demo_world)
   \<and> (\<exists>ds. FailedGenerateKeymap \<notin> set ds
         \<and> type_text rejecting_xkb [0x62, 0] (demo_ime, demo_world) =
             Inr (demo_ime\<lparr>keys := [(KEY_1, 0x62)], next_keycode_index := 1\<rparr>,
                  demo_world\<lparr>ime_log := ime_log demo_world @ ds @ [FailedGenerateKeymap]\<rparr>))
   \<and> ime_log (snd (projr (type_text rejecting_xkb [0x62, 0] (demo_ime, demo_world))))
       = [FailedGenerateKeymap]
   \<and> seat_calls (snd (projr (type_text rejecting_xkb [0x62, 0] (demo_ime, demo_world)))) = []
   \<and> map_of actions ACTION_SUBMIT = Some (KEY_ENTER, XKB_KEY_Return)
   \<and> try_type_keysym rejecting_xkb (snd (KEY_ENTER, XKB_KEY_Return)) demo_world
       = Inr (False, demo_world)
   \<and> fst (generate_keymap rejecting_xkb demo_ime demo_world) = None
   \<and> (\<exists>ds. FailedGenerateKeymap \<notin> set ds
         \<and> perform_action rejecting_xkb ACTION_SUBMIT (demo_ime, demo_world) =
             Inr (demo_ime, demo_world\<lparr>ime_log := ime_log demo_world @ ds @ [FailedGenerateKeymap]\<rparr>))
   \<and> seat_calls (snd (projr (perform_action rejecting_xkb ACTION_SUBMIT (demo_ime, demo_world)))) = []"
proof -
  let ?b = "demo_ime\<lparr>keys := [(KEY_1, 0x62)], next_keycode_index := 1\<rparr>"
  let ?t = "try_type_keysym rejecting_xkb (keysym_from_ch rejecting_xkb (ucast ([0x62, 0 :: u8] ! 0))) demo_world"
  let ?s = "try_type_keysym rejecting_xkb (snd (KEY_ENTER, XKB_KEY_Return)) demo_world"
  have ks: "keysym_from_ch rejecting_xkb 0x62 = 0x62"
    by code_simp
  have kc: "keycode_from_ch rejecting_xkb 0x62 (demo_ime, demo_world) = (KEY_1, ?b, demo_world)"
    by (simp add: keycode_from_ch_def ks demo_ime_def XKB_KEY_NoSymbol_def
        allow_keycodes_len_47 allow_keycodes_def)
  have dec: "utf8_decode [0x62, 0] 0 = Inr (0x62, 1)"
    by (simp add: utf8_decode_def utf8_size_def rd_def masks_def
        utf8_decode_loop.simps [of _ _ "Suc 0"])
  have v: "KEY_1 \<noteq> XKB_KEYCODE_INVALID"
    by (simp add: KEY_1_def XKB_KEYCODE_INVALID_def)
  have h1: "type_text_loop rejecting_xkb [0x62, 0] 0 (demo_ime, demo_world) []
     = Inr ((?b, demo_world), [KEY_1])"
    by (simp add: type_text_loop.simps [of rejecting_xkb "[0x62, 0]"] rd_def dec kc v)
  have h2: "fst (generate_keymap rejecting_xkb ?b demo_world) = None"
    by code_simp
  have c1: "utf8_size [0x62, 0] 0 = Inr 1" by code_simp
  have c2: "rd [0x62, 0] 1 = Inr 0" by code_simp
  have c3: "keys demo_ime = []" by code_simp
  have c4: "keysym_from_ch rejecting_xkb (ucast ([0x62, 0 :: u8] ! 0)) \<noteq> XKB_KEY_NoSymbol"
    by code_simp
  have "\<not> isl ?t" by code_simp
  moreover have "\<not> fst (projr ?t)" by code_simp
  ultimately have "?t = Inr (False, snd (projr ?t))"
    by (cases ?t) auto
  with try_type_keysym_false [of rejecting_xkb _ demo_world "snd (projr ?t)"]
  have h3: "?t = Inr (False, demo_world)" by simp
  have a1: "map_of actions ACTION_SUBMIT = Some (KEY_ENTER, XKB_KEY_Return)"
    by (simp add: actions_def)
  have "\<not> isl ?s" by code_simp
  moreover have "\<not> fst (projr ?s)" by code_simp
  ultimately have "?s = Inr (False, snd (projr ?s))"
    by (cases ?s) auto
  with try_type_keysym_false [of rejecting_xkb _ demo_world "snd (projr ?s)"]
  have a2: "?s = Inr (False, demo_world)" by simp
  have a3: "fst (generate_keymap rejecting_xkb demo_ime demo_world) = None"
    by code_simp
  have e1: "ime_log (snd (projr (type_text rejecting_xkb [0x62, 0] (demo_ime, demo_world))))
       = [FailedGenerateKeymap]"
    by code_simp
  have e2: "seat_calls (snd (projr (type_text rejecting_xkb [0x62, 0] (demo_ime, demo_world)))) = []"
    by code_simp
  have e3: "seat_calls (snd (projr (perform_action rejecting_xkb ACTION_SUBMIT (demo_ime, demo_world)))) = []"
    by code_simp
  note th = synthesis_failure_abandons [of rejecting_xkb demo_ime demo_world "[0x62, 0]" demo_ime
      demo_world ?b demo_world "[KEY_1]" ACTION_SUBMIT "(KEY_ENTER, XKB_KEY_Return)"]
  from th h1 h2 c1 c2 c3 c4 h3
  have p1: "\<exists>ds. FailedGenerateKeymap \<notin> set ds
         \<and> type_text rejecting_xkb [0x62, 0] (demo_ime, demo_world) =
             Inr (?b, demo_world\<lparr>ime_log := ime_log demo_world @ ds @ [FailedGenerateKeymap]\<rparr>)"
    by blast
  from th a1 a2 a3
  have p2: "\<exists>ds. FailedGenerateKeymap \<notin> set ds
         \<and> perform_action rejecting_xkb ACTION_SUBMIT (demo_ime, demo_world) =
             Inr (demo_ime, demo_world\<lparr>ime_log := ime_log demo_world @ ds @ [FailedGenerateKeymap]\<rparr>)"
    by blast
  from h1 h2 c1 c2 c3 c4 h3 p1 e1 e2 a1 a2 a3 p2 e3 show ?thesis
    by (intro conjI)
qed

subsection \<open>A text that produces no key code\<close>

text \<open>
  C10, as stated, has the keymap synthesised, installed and the seat switched for every
  such text, the keymap holding the action keys only. With a compiler that rejects the
  text, the empty text produces no key code and \<^verbatim>\<open>type_text\<close> makes no call into the
  seat, installs nothing and arms no timer. With the key code \<^verbatim>\<open>KEY_1\<close> of an earlier
  text still in the queue, the empty text produces no key code and the text handed to the
  compiler has the two lines that bind \<^verbatim>\<open>K2\<close>, which is no action key.
\<close>

theorem no_keycodes_counterexample:
  "snd (projr (type_text_loop rejecting_xkb [0] 0 (demo_ime, demo_world) [])) = []
   \<and> \<not> isl (type_text rejecting_xkb [0] (demo_ime, demo_world))
   \<and> seat_calls (snd (projr (type_text rejecting_xkb [0] (demo_ime, demo_world)))) = []
   \<and> seat_keyboard (snd (projr (type_text rejecting_xkb [0] (demo_ime, demo_world)))) = None
   \<and> keyboard_keymap (fst (projr (type_text rejecting_xkb [0] (demo_ime, demo_world)))) = None
   \<and> timers (snd (projr (type_text rejecting_xkb [0] (demo_ime, demo_world)))) (ImeResetTimer 7) = None
   \<and> keys typed_ime = [(KEY_1, 0xe9)]
   \<and> snd (projr (type_text_loop demo_xkb [0] 0 (typed_ime, demo_world) [])) = []
   \<and> sublist ([CHR 0x09] @ ''<K2> = 10;'' @ [CHR 0x0A])
        (the (fst (keymap_description demo_xkb typed_ime demo_world)))
   \<and> sublist ([CHR 0x09] @ ''key <K2> {[ eacute ]};'' @ [CHR 0x0A])
        (the (fst (keymap_description demo_xkb typed_ime demo_world)))"
  by code_simp

text \<open>
  C10, amended: when the loop of \<^verbatim>\<open>type_text\<close> produces no key code, it allocated
  nothing and only logged, and the keymap is synthesised from the queue as it was and the
  action table. When the synthesis succeeds, \<^verbatim>\<open>type_text\<close> installs the keymap on the
  keyboard of the session, switches the seat to that keyboard and arms the idle timer of
  the session with 100 ms, and these are all its calls into the seat: no key is pressed
  or released. When the synthesis fails, \<^verbatim>\<open>type_text\<close> logs the failure and leaves
  the session and the seat as they were.
\<close>

theorem type_text_nothing_typed_still_switches:
  assumes "type_text_loop L str 0 (ime, w) [] = Inr ((ime1, w1), [])"
    and "generate_keymap L ime1 w1 = (r, w2)"
  shows "ime1 = ime \<and> logs_more w w2
     \<and> type_text L str (ime, w) =
         (case r of
            Some km \<Rightarrow>
              Inr (ime\<lparr>keyboard_keymap := Some km\<rparr>,
                   w2\<lparr>seat_keyboard := Some (ImeKeyboard (resource ime)),
                      seat_calls := seat_calls w @
                        [SetKeymap (ImeKeyboard (resource ime)) km,
                         SetKeyboard (ImeKeyboard (resource ime))],
                      timers := (timers w)(ImeResetTimer (resource ime) \<mapsto> 100)\<rparr>)
          | None \<Rightarrow> Inr (ime, errorf FailedGenerateKeymap w2))
     \<and> seat_calls w2 = seat_calls w \<and> seat_keyboard w2 = seat_keyboard w \<and> timers w2 = timers w"
proof -
  from type_text_loop_keycodes [OF assms(1)] have i: "ime1 = ime" by simp
  have "logs_more w w1"
    using type_text_loop_logs [OF assms(1)] by simp
  moreover have "logs_more w1 w2"
    using generate_keymap_logs [of w1 L ime1] assms(2) by simp
  ultimately have lm: "logs_more w w2" by (rule logs_more_trans)
  note seat = logs_more_seat [OF lm]
  from type_text_loop_rd [OF assms(1)] obtain sz where sz: "utf8_size str 0 = Inr sz"
    by (auto simp: utf8_size_def)
  have ts: "type_text L str (ime, w) = type_text_synth L str (ime, w)"
  proof (cases "sz = 1")
    case False
    with sz show ?thesis by (simp add: type_text_def Let_def)
  next
    case True
    with sz have one: "utf8_size str 0 = Inr 1" by simp
    from one_byte_text_loop [OF one assms(1)] obtain b1 where
      b1: "rd str 1 = Inr b1"
      and nd: "\<not> (keys ime = [] \<and> keysym_from_ch L (ucast (str ! 0)) \<noteq> XKB_KEY_NoSymbol)"
      by auto
    from one b1 nd show ?thesis by (auto simp: type_text_def Let_def)
  qed
  have "type_text_synth L str (ime, w) =
         (case r of
            Some km \<Rightarrow>
              Inr (ime\<lparr>keyboard_keymap := Some km\<rparr>,
                   w2\<lparr>seat_keyboard := Some (ImeKeyboard (resource ime)),
                      seat_calls := seat_calls w @
                        [SetKeymap (ImeKeyboard (resource ime)) km,
                         SetKeyboard (ImeKeyboard (resource ime))],
                      timers := (timers w)(ImeResetTimer (resource ime) \<mapsto> 100)\<rparr>)
          | None \<Rightarrow> Inr (ime, errorf FailedGenerateKeymap w2))"
    using assms i seat
    by (cases r) (simp_all add: type_text_synth_def Let_def wlr_keyboard_set_keymap_def
        wlr_seat_set_keyboard_def wl_event_source_timer_update_def)
  with ts i lm seat show ?thesis by simp
qed

theorem type_text_nothing_typed_still_switches_witness:
  "type_text_loop demo_xkb [1, 0] 0 (demo_ime, demo_world) []
     = Inr ((demo_ime, errorf (CannotType 1) demo_world), [])
   \<and> generate_keymap demo_xkb demo_ime (errorf (CannotType 1) demo_world)
       = (Some 1, errorf (CannotType 1) demo_world)
   \<and> type_text demo_xkb [1, 0] (demo_ime, demo_world) =
       Inr (demo_ime\<lparr>keyboard_keymap := Some 1\<rparr>,
            (errorf (CannotType 1) demo_world)
              \<lparr>seat_keyboard := Some (ImeKeyboard (resource demo_ime)),
               seat_calls := seat_calls demo_world @
                 [SetKeymap (ImeKeyboard (resource demo_ime)) 1,
                  SetKeyboard (ImeKeyboard (resource demo_ime))],
               timers := (timers demo_world)(ImeResetTimer (resource demo_ime) \<mapsto> 100)\<rparr>)
   \<and> type_text_loop rejecting_xkb [1, 0] 0 (demo_ime, demo_world) []
     = Inr ((demo_ime, errorf (CannotType 1) demo_world), [])
   \<and> generate_keymap rejecting_xkb demo_ime (errorf (CannotType 1) demo_world)
       = (None, errorf (CannotType 1) demo_world)
   \<and> type_text rejecting_xkb [1, 0] (demo_ime, demo_world) =
       Inr (demo_ime, errorf FailedGenerateKeymap (errorf (CannotType 1) demo_world))"
proof -
  have dec: "utf8_decode [1, 0] 0 = Inr (1, 1)"
    by (simp add: utf8_decode_def utf8_size_def rd_def masks_def
        utf8_decode_loop.simps [of _ _ "Suc 0"])
  have ks: "keysym_from_ch demo_xkb 1 = XKB_KEY_NoSymbol"
    by code_simp
  have kc: "keycode_from_ch demo_xkb 1 (demo_ime, demo_world)
      = (XKB_KEYCODE_INVALID, demo_ime, demo_world)"
    by (simp add: keycode_from_ch_def ks)
  have h1: "type_text_loop demo_xkb [1, 0] 0 (demo_ime, demo_world) []
    = Inr ((demo_ime, errorf (CannotType 1) demo_world), [])"
    by (simp add: type_text_loop.simps [of demo_xkb "[1, 0]"] rd_def dec kc)
  have "fst (generate_keymap demo_xkb demo_ime (errorf (CannotType 1) demo_world)) = Some 1"
    by code_simp
  then have h2: "generate_keymap demo_xkb demo_ime (errorf (CannotType 1) demo_world)
    = (Some 1, errorf (CannotType 1) demo_world)"
    by (rule generate_keymap_Some)
  have ks': "keysym_from_ch rejecting_xkb 1 = XKB_KEY_NoSymbol"
    by code_simp
  have kc': "keycode_from_ch rejecting_xkb 1 (demo_ime, demo_world)
      = (XKB_KEYCODE_INVALID, demo_ime, demo_world)"
    by (simp add: keycode_from_ch_def ks')
  have h3: "type_text_loop rejecting_xkb [1, 0] 0 (demo_ime, demo_world) []
    = Inr ((demo_ime, errorf (CannotType 1) demo_world), [])"
    by (simp add: type_text_loop.simps [of rejecting_xkb "[1, 0]"] rd_def dec kc')
  have n: "fst (generate_keymap rejecting_xkb demo_ime (errorf (CannotType 1) demo_world)) = None"
    by code_simp
  have "logs_more (errorf (CannotType 1) demo_world)
      (snd (generate_keymap rejecting_xkb demo_ime (errorf (CannotType 1) demo_world)))"
    by (rule generate_keymap_logs)
  moreover have "ime_log (snd (generate_keymap rejecting_xkb demo_ime (errorf (CannotType 1) demo_world)))
      = ime_log (errorf (CannotType 1) demo_world)"
    by code_simp
  ultimately have "snd (generate_keymap rejecting_xkb demo_ime (errorf (CannotType 1) demo_world))
      = errorf (CannotType 1) demo_world"
    by (auto simp: logs_more_def)
  with n have h4: "generate_keymap rejecting_xkb demo_ime (errorf (CannotType 1) demo_world)
       = (None, errorf (CannotType 1) demo_world)"
    by (cases "generate_keymap rejecting_xkb demo_ime (errorf (CannotType 1) demo_world)") simp
  from type_text_nothing_typed_still_switches [OF h1 h2]
    type_text_nothing_typed_still_switches [OF h3 h4] h1 h2 h3 h4
  show ?thesis by simp
qed

subsection \<open>The synthesised keymap covers the queue and the action table\<close>

text \<open>
  C6. Let the loops over the action table visit each of its five entries once, in
  whatever order. Whenever \<^verbatim>\<open>generate_keymap\<close> gets as far as the compiler, the text it
  hands over has, for every entry of the queue and for the key of every action, the line
  that binds the name of the key code to the key code plus 8, both in decimal, and the
  line that gives the key code the name of its symbol, a name that the library found. The
  whole text is the header, one line of the first kind for each of the N entries of the
  queue and then for each of the five action keys in the order of the visit, the middle
  part, one line of the second kind for each of the same N + 5 entries, and the footer.
\<close>

theorem keymap_description_covers:
  assumes "keymap_description L ime w = (Some desc, w')"
    and "iterates_actions L"
    and "kk \<in> set (keys ime) \<or> map_of actions act = Some kk"
  shows "sublist ([CHR 0x09] @ ''<K'' @ dec (unat (fst kk)) @ ''> = '' @ dec (unat (fst kk + 8))
                  @ '';'' @ [CHR 0x0A]) desc
     \<and> sublist ([CHR 0x09] @ ''key <K'' @ dec (unat (fst kk)) @ ''> {[ ''
                  @ snd (xkb_keysym_get_name L (snd kk)) @ '' ]};'' @ [CHR 0x0A]) desc
     \<and> 0 < fst (xkb_keysym_get_name L (snd kk))
     \<and> desc = keymap_header
          @ concat (map (\<lambda>k. [CHR 0x09] @ ''<K'' @ dec (unat (fst k)) @ ''> = ''
                              @ dec (unat (fst k + 8)) @ '';'' @ [CHR 0x0A])
              (keys ime @ map snd (actions_iteration L)))
          @ keymap_middle
          @ concat (map (\<lambda>k. [CHR 0x09] @ ''key <K'' @ dec (unat (fst k)) @ ''> {[ ''
                              @ snd (xkb_keysym_get_name L (snd k)) @ '' ]};'' @ [CHR 0x0A])
              (keys ime @ map snd (actions_iteration L)))
          @ keymap_footer
     \<and> length (keys ime @ map snd (actions_iteration L)) = length (keys ime) + 5
     \<and> generate_keymap L ime w = (xkb_keymap_new_from_buffer L desc, w)"
proof -
  let ?all = "keys ime @ map snd (actions_iteration L)"
  let ?kl = "\<lambda>k. [CHR 0x09] @ ''<K'' @ dec (unat (fst k)) @ ''> = ''
                              @ dec (unat (fst k + 8)) @ '';'' @ [CHR 0x0A]"
  let ?sl = "\<lambda>k. [CHR 0x09] @ ''key <K'' @ dec (unat (fst k)) @ ''> {[ ''
                              @ snd (xkb_keysym_get_name L (snd k)) @ '' ]};'' @ [CHR 0x0A]"
  have kl: "(\<lambda>k. keycode_line (fst k)) = ?kl"
    by (simp add: keycode_line_def tab_def nl_def keycode_offset_def)
  have sl: "(\<lambda>k. symbol_line (fst k) (snd (xkb_keysym_get_name L (snd k)))) = ?sl"
    by (simp add: symbol_line_def tab_def nl_def)
  from keymap_description_Some [OF assms(1)]
  have t: "desc = keymap_header @ concat (map ?kl ?all) @ keymap_middle @ concat (map ?sl ?all) @ keymap_footer"
    and w: "w' = w" unfolding kl sl by simp_all
  from assms(2,3) have m: "kk \<in> set ?all"
    by (auto dest: iterates_actions_key)
  have 1: "sublist (?kl kk) desc"
    unfolding t by (rule sublist_concat_map [OF m])
  have "sublist (?sl kk) ((keymap_header @ concat (map ?kl ?all) @ keymap_middle) @ concat (map ?sl ?all) @ keymap_footer)"
    by (rule sublist_concat_map [OF m])
  then have 2: "sublist (?sl kk) desc"
    unfolding t by simp
  from assms(1) have "fst (keymap_description L ime w) \<noteq> None" by simp
  with keymap_description_None [of L ime w] m have 3: "0 < fst (xkb_keysym_get_name L (snd kk))"
    by (auto simp: not_le)
  have 4: "length ?all = length (keys ime) + 5"
    using iterates_actions_length [OF assms(2)] by simp
  have 5: "generate_keymap L ime w = (xkb_keymap_new_from_buffer L desc, w)"
    using assms(1) w by (simp add: generate_keymap_def)
  from 1 2 3 t 4 5 show ?thesis by blast
qed

theorem keymap_description_covers_witness:
  "keymap_description demo_xkb typed_ime demo_world
     = (Some (the (fst (keymap_description demo_xkb typed_ime demo_world))),
        snd (keymap_description demo_xkb typed_ime demo_world))
   \<and> iterates_actions demo_xkb
   \<and> map_of actions ACTION_DELETE_LEFT = Some (KEY_BACKSPACE, XKB_KEY_BackSpace)
   \<and> sublist ([CHR 0x09] @ ''<K'' @ dec (unat (fst (KEY_BACKSPACE, XKB_KEY_BackSpace))) @ ''> = ''
               @ dec (unat (fst (KEY_BACKSPACE, XKB_KEY_BackSpace) + 8)) @ '';'' @ [CHR 0x0A])
        (the (fst (keymap_description demo_xkb typed_ime demo_world)))
   \<and> sublist ([CHR 0x09] @ ''key <K'' @ dec (unat (fst (KEY_BACKSPACE, XKB_KEY_BackSpace))) @ ''> {[ ''
               @ snd (xkb_keysym_get_name demo_xkb (snd (KEY_BACKSPACE, XKB_KEY_BackSpace)))
               @ '' ]};'' @ [CHR 0x0A])
        (the (fst (keymap_description demo_xkb typed_ime demo_world)))
   \<and> the (fst (keymap_description demo_xkb typed_ime demo_world)) =
        ''xkb_keymap {'' @ [CHR 0x0A] @
        [CHR 0x0A] @
        ''xkb_keycodes '' @ [CHR 0x22] @ ''(unnamed)'' @ [CHR 0x22] @ '' {'' @ [CHR 0x0A] @
        [CHR 0x09] @ ''minimum = 10;'' @ [CHR 0x0A] @
        [CHR 0x09] @ ''maximum = 119;'' @ [CHR 0x0A] @
        [CHR 0x09] @ ''<K2> = 10;'' @ [CHR 0x0A] @
        [CHR 0x09] @ ''<K106> = 114;'' @ [CHR 0x0A] @
        [CHR 0x09] @ ''<K105> = 113;'' @ [CHR 0x0A] @
        [CHR 0x09] @ ''<K111> = 119;'' @ [CHR 0x0A] @
        [CHR 0x09] @ ''<K14> = 22;'' @ [CHR 0x0A] @
        [CHR 0x09] @ ''<K28> = 36;'' @ [CHR 0x0A] @
        ''};'' @ [CHR 0x0A] @
        [CHR 0x0A] @
        ''xkb_types '' @ [CHR 0x22] @ ''(unnamed)'' @ [CHR 0x22] @ '' { include '' @ [CHR 0x22] @ ''complete'' @ [CHR 0x22] @ '' };'' @ [CHR 0x0A] @
        [CHR 0x0A] @
        ''xkb_compatibility '' @ [CHR 0x22] @ ''(unnamed)'' @ [CHR 0x22] @ '' { include '' @ [CHR 0x22] @ ''complete'' @ [CHR 0x22] @ '' };'' @ [CHR 0x0A] @
        [CHR 0x0A] @
        ''xkb_symbols '' @ [CHR 0x22] @ ''(unnamed)'' @ [CHR 0x22] @ '' {'' @ [CHR 0x0A] @
        [CHR 0x09] @ ''key <K2> {[ eacute ]};'' @ [CHR 0x0A] @
        [CHR 0x09] @ ''key <K106> {[ Right ]};'' @ [CHR 0x0A] @
        [CHR 0x09] @ ''key <K105> {[ Left ]};'' @ [CHR 0x0A] @
        [CHR 0x09] @ ''key <K111> {[ Delete ]};'' @ [CHR 0x0A] @
        [CHR 0x09] @ ''key <K14> {[ BackSpace ]};'' @ [CHR 0x0A] @
        [CHR 0x09] @ ''key <K28> {[ Return ]};'' @ [CHR 0x0A] @
        ''};'' @ [CHR 0x0A] @
        [CHR 0x0A] @
        ''};'' @ [CHR 0x0A]"
proof -
  let ?d = "keymap_description demo_xkb typed_ime demo_world"
  have "fst ?d \<noteq> None" by code_simp
  then have h: "?d = (Some (the (fst ?d)), snd ?d)"
    by (cases ?d) auto
  have r: "actions_iteration demo_xkb = rev actions"
    by (simp add: demo_xkb_def)
  have "distinct actions"
    by (simp add: actions_def)
  then have i: "iterates_actions demo_xkb"
    unfolding iterates_actions_def r by (simp only: distinct_rev set_rev simp_thms)
  have a: "map_of actions ACTION_DELETE_LEFT = Some (KEY_BACKSPACE, XKB_KEY_BackSpace)"
    by (simp add: actions_def)
  have g: "the (fst ?d) =
        ''xkb_keymap {'' @ [CHR 0x0A] @
        [CHR 0x0A] @
        ''xkb_keycodes '' @ [CHR 0x22] @ ''(unnamed)'' @ [CHR 0x22] @ '' {'' @ [CHR 0x0A] @
        [CHR 0x09] @ ''minimum = 10;'' @ [CHR 0x0A] @
        [CHR 0x09] @ ''maximum = 119;'' @ [CHR 0x0A] @
        [CHR 0x09] @ ''<K2> = 10;'' @ [CHR 0x0A] @
        [CHR 0x09] @ ''<K106> = 114;'' @ [CHR 0x0A] @
        [CHR 0x09] @ ''<K105> = 113;'' @ [CHR 0x0A] @
        [CHR 0x09] @ ''<K111> = 119;'' @ [CHR 0x0A] @
        [CHR 0x09] @ ''<K14> = 22;'' @ [CHR 0x0A] @
        [CHR 0x09] @ ''<K28> = 36;'' @ [CHR 0x0A] @
        ''};'' @ [CHR 0x0A] @
        [CHR 0x0A] @
        ''xkb_types '' @ [CHR 0x22] @ ''(unnamed)'' @ [CHR 0x22] @ '' { include '' @ [CHR 0x22] @ ''complete'' @ [CHR 0x22] @ '' };'' @ [CHR 0x0A] @
        [CHR 0x0A] @
        ''xkb_compatibility '' @ [CHR 0x22] @ ''(unnamed)'' @ [CHR 0x22] @ '' { include '' @ [CHR 0x22] @ ''complete'' @ [CHR 0x22] @ '' };'' @ [CHR 0x0A] @
        [CHR 0x0A] @
        ''xkb_symbols '' @ [CHR 0x22] @ ''(unnamed)'' @ [CHR 0x22] @ '' {'' @ [CHR 0x0A] @
        [CHR 0x09] @ ''key <K2> {[ eacute ]};'' @ [CHR 0x0A] @
        [CHR 0x09] @ ''key <K106> {[ Right ]};'' @ [CHR 0x0A] @
        [CHR 0x09] @ ''key <K105> {[ Left ]};'' @ [CHR 0x0A] @
        [CHR 0x09] @ ''key <K111> {[ Delete ]};'' @ [CHR 0x0A] @
        [CHR 0x09] @ ''key <K14> {[ BackSpace ]};'' @ [CHR 0x0A] @
        [CHR 0x09] @ ''key <K28> {[ Return ]};'' @ [CHR 0x0A] @
        ''};'' @ [CHR 0x0A] @
        [CHR 0x0A] @
        ''};'' @ [CHR 0x0A]"
    by code_simp
  from keymap_description_covers [OF h i, of "(KEY_BACKSPACE, XKB_KEY_BackSpace)" ACTION_DELETE_LEFT] h i a g
  show ?thesis by blast
qed

end
